theory Spec2Isabelle
  imports Main "HOL-Library.AList" "HOL-Library.Sublist"
begin

section \<open>Data model\<close>

text \<open>
  A Go \<open>map[string]string\<close> is an association list with distinct keys; the order of the
  list is the order in which a \<open>range\<close> loop visits the entries (which Go leaves
  unspecified). \<open>m[k] = v\<close> is \<open>AList.update k v m\<close>, a lookup \<open>m[k]\<close> yields the empty
  string for a missing key.
\<close>

type_synonym gomap = "(string \<times> string) list"

definition lookup :: "gomap \<Rightarrow> string \<Rightarrow> string" where
  "lookup m k = (case map_of m k of None \<Rightarrow> [] | Some v \<Rightarrow> v)"

text \<open>A Go \<open>error\<close> value is its message; the nil error is \<open>None\<close>.\<close>

datatype error = Error string

fun message :: "error \<Rightarrow> string" where
  "message (Error s) = s"

text \<open>The types of package \<open>b\<close>, with the fields that \<open>builder.go\<close> reads.\<close>

record ApplicationService =
  as_ID :: string
  as_HSToken :: string
  as_ASToken :: string
  as_URL :: string
  as_SenderLocalpart :: string
  as_RateLimited :: bool

record Homeserver =
  hs_Name :: string
  hs_ApplicationServices :: "ApplicationService list"

record Blueprint =
  bp_Name :: string
  bp_Homeservers :: "Homeserver list"

section \<open>Label codec\<close>

definition HasPrefix :: "string \<Rightarrow> string \<Rightarrow> bool" where
  "HasPrefix s p = prefix p s"

definition TrimPrefix :: "string \<Rightarrow> string \<Rightarrow> string" where
  "TrimPrefix s p = (if HasPrefix s p then drop (length p) s else s)"

definition tokensFromLabels :: "gomap \<Rightarrow> gomap" where
  "tokensFromLabels labels =
     fold (\<lambda>(k, v) userIDToToken.
             if HasPrefix k ''access_token_''
             then AList.update (TrimPrefix k ''access_token_'') v userIDToToken
             else userIDToToken)
          labels []"

definition labelsForTokens :: "gomap \<Rightarrow> gomap" where
  "labelsForTokens userIDToToken =
     fold (\<lambda>(k, v) labels. AList.update (''access_token_'' @ k) v labels) userIDToToken []"

definition asIDToRegistrationFromLabels :: "gomap \<Rightarrow> gomap" where
  "asIDToRegistrationFromLabels labels =
     fold (\<lambda>(k, v) asMap.
             if HasPrefix k ''application_service_''
             then AList.update (TrimPrefix k ''application_service_'') v asMap
             else asMap)
          labels []"

text \<open>\<open>fmt.Sprintf("%v", b)\<close> for a boolean.\<close>

definition fmtBool :: "bool \<Rightarrow> string" where
  "fmtBool b = (if b then ''true'' else ''false'')"

definition generateASRegistrationYaml :: "ApplicationService \<Rightarrow> string" where
  "generateASRegistrationYaml as =
     (''id: '' @ as_ID as @ ''\<newline>'') @
     (''hs_token: '' @ as_HSToken as @ ''\<newline>'') @
     (''as_token: '' @ as_ASToken as @ ''\<newline>'') @
     (''url: '' @ [CHR 0x27] @ as_URL as @ [CHR 0x27] @ ''\<newline>'') @
     (''sender_localpart: '' @ as_SenderLocalpart as @ ''\<newline>'') @
     (''rate_limited: '' @ fmtBool (as_RateLimited as) @ ''\<newline>'') @
     ''namespaces:\<newline>'' @
     ''  users: []\<newline>'' @
     ''  rooms: []\<newline>'' @
     ''  aliases: []\<newline>''"

definition idsFromApplicationServices :: "ApplicationService list \<Rightarrow> string list" where
  "idsFromApplicationServices asList = map as_ID asList"

definition fixedHSToken :: string where
  "fixedHSToken = ''27562ff25dd2eb69361ac1eb67e3a3cd38ab9509c1483234ec8dfec0f247c73e''"

definition fixedASToken :: string where
  "fixedASToken = ''f872531e387377686989e792c723e646f7823643e747a0521e94770a721f40fc''"

text \<open>The loop body of \<open>labelsForApplicationServices\<close>: both tokens of the (copied)
  application service are overwritten before the two labels are stored.\<close>

definition asLabelStep :: "string \<Rightarrow> ApplicationService \<Rightarrow> gomap \<Rightarrow> gomap" where
  "asLabelStep hsName as0 labels =
     (let as = as0\<lparr>as_HSToken := fixedHSToken, as_ASToken := fixedASToken\<rparr>;
          labels1 = AList.update (''application_service_'' @ as_ID as)
                      (generateASRegistrationYaml as) labels
      in AList.update (''access_token_@'' @ as_SenderLocalpart as @ '':'' @ hsName)
           (as_ASToken as) labels1)"

definition labelsForApplicationServices :: "Homeserver \<Rightarrow> gomap" where
  "labelsForApplicationServices hs =
     fold (asLabelStep (hs_Name hs)) (hs_ApplicationServices hs) []"

text \<open>The labels that \<open>construct\<close> attaches to a committed image: the token labels,
  overwritten entry by entry with the application-service labels.\<close>

definition commitLabels :: "gomap \<Rightarrow> Homeserver \<Rightarrow> gomap" where
  "commitLabels tokens hs =
     fold (\<lambda>(k, v) labels. AList.update k v labels)
          (labelsForApplicationServices hs) (labelsForTokens tokens)"


text \<open>The two semantic maps that the labels of a homeserver carry besides the executor's
  credentials, written down independently of the encoder: the registration document of
  each application service under its id (the last one wins when ids repeat), and the
  credential of each application service's sender.\<close>

definition registrationDocument :: "ApplicationService \<Rightarrow> string" where
  "registrationDocument as =
     generateASRegistrationYaml (as\<lparr>as_HSToken := fixedHSToken, as_ASToken := fixedASToken\<rparr>)"

definition senderUserID :: "string \<Rightarrow> ApplicationService \<Rightarrow> string" where
  "senderUserID hsName as = ''@'' @ as_SenderLocalpart as @ '':'' @ hsName"

definition asRegistrations :: "Homeserver \<Rightarrow> (string \<rightharpoonup> string)" where
  "asRegistrations hs =
     map_of (rev (map (\<lambda>as. (as_ID as, registrationDocument as)) (hs_ApplicationServices hs)))"

definition senderCredentials :: "Homeserver \<Rightarrow> (string \<rightharpoonup> string)" where
  "senderCredentials hs =
     map_of (map (\<lambda>as. (senderUserID (hs_Name hs) as, fixedASToken)) (hs_ApplicationServices hs))"

section \<open>The container runtime and the other collaborators\<close>

datatype MountType = TypeBind | TypeVolume

record Mount =
  mount_Type :: MountType
  mount_Source :: string
  mount_Target :: string

record MountPoint =
  mp_Name :: string
  mp_Destination :: string

record PortBinding =
  pb_HostIP :: string
  pb_HostPort :: string

type_synonym PortMap = "(string \<times> PortBinding list) list"

text \<open>What \<open>ContainerInspect\<close> reports, as far as it is read: \<open>Mounts\<close>,
  \<open>NetworkSettings.Ports\<close> and \<open>Config.Labels\<close>.\<close>

record ContainerJSON =
  cj_Mounts :: "MountPoint list"
  cj_Ports :: PortMap
  cj_Labels :: gomap

record ImageSummary =
  img_ID :: string
  img_Labels :: gomap

text \<open>The arguments of \<open>ContainerCreate\<close>: container config, host config, the single
  endpoint of the networking config, and the container name.\<close>

record CreateRequest =
  cr_Image :: string
  cr_Env :: "string list"
  cr_Labels :: gomap
  cr_Volumes :: "string list"
  cr_PublishAllPorts :: bool
  cr_ExtraHosts :: "string list"
  cr_Mounts :: "Mount list"
  cr_EndpointName :: string
  cr_NetworkID :: string
  cr_Aliases :: "string list"
  cr_ContainerName :: string

record CommitOptions =
  co_Author :: string
  co_Pause :: bool
  co_Reference :: string
  co_Labels :: gomap

text \<open>Every call that leaves the process is recorded, in order, in a history.\<close>

datatype event =
    EvNetworkCreate string gomap
  | EvNetworkList string
  | EvNetworkRemove string
  | EvImageList string
  | EvImageRemove string bool
  | EvContainerList bool string
  | EvContainerRemove string bool
  | EvContainerKill string string
  | EvContainerCommit string CommitOptions
  | EvContainerCreate CreateRequest
  | EvContainerStart string
  | EvContainerInspect string
  | EvContainerLogs string
  | EvHttpGet string
  | EvSleep nat
  | EvRun string string string
  | EvReadFile string
  | EvGetwd
  | EvStat string
  | EvMkdir string nat

type_synonym history = "event list"

text \<open>
  The Docker client, the HTTP client, the operating system and the instruction runner are
  not part of the repository's source. Each of their operations is a parameter: a function
  from the history before the call (and the call's arguments) to the answer. This is the
  most general deterministic collaborator; nothing is assumed about what it answers.
  Listings are reduced to what the code reads of them (identifiers, and labels of images).
  The runner is identified by the blueprint name it was created for. Log output is not
  recorded.
\<close>

record world =
  Docker_NetworkCreate :: "history \<Rightarrow> string \<Rightarrow> gomap \<Rightarrow> error + (string \<times> string)"
  Docker_NetworkList :: "history \<Rightarrow> string \<Rightarrow> error + string list"
  Docker_NetworkRemove :: "history \<Rightarrow> string \<Rightarrow> error option"
  Docker_ImageList :: "history \<Rightarrow> string \<Rightarrow> error + ImageSummary list"
  Docker_ImageRemove :: "history \<Rightarrow> string \<Rightarrow> error option"
  Docker_ContainerList :: "history \<Rightarrow> string \<Rightarrow> error + string list"
  Docker_ContainerRemove :: "history \<Rightarrow> string \<Rightarrow> error option"
  Docker_ContainerCommit :: "history \<Rightarrow> string \<Rightarrow> CommitOptions \<Rightarrow> error + string"
  Docker_ContainerCreate :: "history \<Rightarrow> CreateRequest \<Rightarrow> error + string"
  Docker_ContainerStart :: "history \<Rightarrow> string \<Rightarrow> error option"
  Docker_ContainerInspect :: "history \<Rightarrow> string \<Rightarrow> error + ContainerJSON"
  http_Get :: "history \<Rightarrow> string \<Rightarrow> error + (int \<times> string)"
  runner_Run :: "history \<Rightarrow> string \<Rightarrow> Homeserver \<Rightarrow> string \<Rightarrow> error option"
  runner_AccessTokens :: "history \<Rightarrow> string \<Rightarrow> string \<Rightarrow> gomap"
  os_Getenv :: "string \<Rightarrow> string"
  os_ReadFile :: "history \<Rightarrow> string \<Rightarrow> error + string"
  os_Getwd :: "history \<Rightarrow> error + string"
  os_StatIsNotExist :: "history \<Rightarrow> string \<Rightarrow> bool"
  os_Mkdir :: "history \<Rightarrow> string \<Rightarrow> error option"
  path_Join :: "string \<Rightarrow> string \<Rightarrow> string"
  runtime_GOOS :: string
  fmt_PortMap :: "PortMap \<Rightarrow> string"

text \<open>\<open>config.Complement\<close> is declared outside the source at hand; of its fields the
  builder reads the health-check iteration bound after construction.\<close>

record Complement =
  cfg_VersionCheckIterations :: int

record Builder =
  BaseImage :: string
  ImageArgs :: "string list"
  KeepBlueprints :: "string list"
  CSAPIPort :: int
  FederationPort :: int
  debugLogging :: bool
  config :: Complement

definition complementLabel :: string where
  "complementLabel = ''complement_context''"

definition HostnameRunningComplement :: string where
  "HostnameRunningComplement = ''host.docker.internal''"

text \<open>The package variable after \<open>init\<close> has run.\<close>

definition HostnameRunningDocker :: "world \<Rightarrow> string" where
  "HostnameRunningDocker rt =
     (if os_Getenv rt ''CI'' = ''true'' then ''172.17.0.1'' else ''localhost'')"

text \<open>A panic unwinds the goroutine; a function that may panic returns an outcome.\<close>

datatype 'a outcome = Panic | Returns 'a

section \<open>Cleanup\<close>

fun removeNetworksLoop :: "world \<Rightarrow> string list \<Rightarrow> history \<Rightarrow> error option \<times> history" where
  "removeNetworksLoop rt [] tr = (None, tr)"
| "removeNetworksLoop rt (nw # networks) tr =
     (case Docker_NetworkRemove rt tr nw of
        Some err \<Rightarrow> (Some err, tr @ [EvNetworkRemove nw])
      | None \<Rightarrow> removeNetworksLoop rt networks (tr @ [EvNetworkRemove nw]))"

definition removeNetworks :: "world \<Rightarrow> history \<Rightarrow> error option \<times> history" where
  "removeNetworks rt tr =
     (case Docker_NetworkList rt tr complementLabel of
        Inl err \<Rightarrow> (Some err, tr @ [EvNetworkList complementLabel])
      | Inr networks \<Rightarrow> removeNetworksLoop rt networks (tr @ [EvNetworkList complementLabel]))"

text \<open>The inner loop of \<open>removeImages\<close> over the keep-list.\<close>

fun keepBlueprint :: "string \<Rightarrow> string list \<Rightarrow> bool" where
  "keepBlueprint bprintName [] = False"
| "keepBlueprint bprintName (keepBprint # rest) =
     (if bprintName = keepBprint then True else keepBlueprint bprintName rest)"

fun removeImagesLoop ::
  "world \<Rightarrow> string list \<Rightarrow> ImageSummary list \<Rightarrow> history \<Rightarrow> error option \<times> history" where
  "removeImagesLoop rt keeps [] tr = (None, tr)"
| "removeImagesLoop rt keeps (img # images) tr =
     (let bprintName = lookup (img_Labels img) ''complement_blueprint'' in
      if keepBlueprint bprintName keeps then removeImagesLoop rt keeps images tr
      else (case Docker_ImageRemove rt tr (img_ID img) of
              Some err \<Rightarrow> (Some err, tr @ [EvImageRemove (img_ID img) True])
            | None \<Rightarrow> removeImagesLoop rt keeps images (tr @ [EvImageRemove (img_ID img) True])))"

definition removeImages :: "world \<Rightarrow> Builder \<Rightarrow> history \<Rightarrow> error option \<times> history" where
  "removeImages rt d tr =
     (case Docker_ImageList rt tr complementLabel of
        Inl err \<Rightarrow> (Some err, tr @ [EvImageList complementLabel])
      | Inr images \<Rightarrow>
          removeImagesLoop rt (KeepBlueprints d) images (tr @ [EvImageList complementLabel]))"

fun removeContainersLoop :: "world \<Rightarrow> string list \<Rightarrow> history \<Rightarrow> error option \<times> history" where
  "removeContainersLoop rt [] tr = (None, tr)"
| "removeContainersLoop rt (c # containers) tr =
     (case Docker_ContainerRemove rt tr c of
        Some err \<Rightarrow> (Some err, tr @ [EvContainerRemove c True])
      | None \<Rightarrow> removeContainersLoop rt containers (tr @ [EvContainerRemove c True]))"

definition removeContainers :: "world \<Rightarrow> history \<Rightarrow> error option \<times> history" where
  "removeContainers rt tr =
     (case Docker_ContainerList rt tr complementLabel of
        Inl err \<Rightarrow> (Some err, tr @ [EvContainerList True complementLabel])
      | Inr containers \<Rightarrow>
          removeContainersLoop rt containers (tr @ [EvContainerList True complementLabel]))"

text \<open>\<open>Cleanup\<close> returns nothing; each pass's error is only logged.\<close>

definition Cleanup :: "world \<Rightarrow> Builder \<Rightarrow> history \<Rightarrow> history" where
  "Cleanup rt d tr =
     (let (err1, tr1) = removeContainers rt tr;
          (err2, tr2) = removeImages rt d tr1;
          (err3, tr3) = removeNetworks rt tr2
      in tr3)"

text \<open>The shape that the three removal loops share, used to reason about them: attempt
  the removals in order, stop at the first failure.\<close>

fun attemptAll ::
  "(history \<Rightarrow> string \<Rightarrow> error option) \<Rightarrow> (string \<Rightarrow> event) \<Rightarrow> string list \<Rightarrow> history
     \<Rightarrow> error option \<times> history" where
  "attemptAll remove ev [] tr = (None, tr)"
| "attemptAll remove ev (x # xs) tr =
     (case remove tr x of
        Some err \<Rightarrow> (Some err, tr @ [ev x])
      | None \<Rightarrow> attemptAll remove ev xs (tr @ [ev x]))"

text \<open>The images that \<open>removeImages\<close> does not skip.\<close>

definition notKept :: "string list \<Rightarrow> ImageSummary list \<Rightarrow> ImageSummary list" where
  "notKept keeps images =
     filter (\<lambda>img. \<not> keepBlueprint (lookup (img_Labels img) ''complement_blueprint'') keeps)
       images"

section \<open>Network provisioning\<close>

text \<open>\<open>CreateNetwork\<close> returns the pair \<open>(networkID, err)\<close>.\<close>

definition CreateNetwork ::
  "world \<Rightarrow> string \<Rightarrow> history \<Rightarrow> (string \<times> error option) \<times> history" where
  "CreateNetwork rt blueprintName tr =
     (let name = ''complement_'' @ blueprintName;
          labels = [(complementLabel, blueprintName), (''complement_blueprint'', blueprintName)];
          tr1 = tr @ [EvNetworkCreate name labels]
      in case Docker_NetworkCreate rt tr name labels of
           Inl err \<Rightarrow>
             (([], Some (Error (blueprintName @ '': failed to create docker network. ''
                                 @ message err))), tr1)
         | Inr (nwID, nwWarning) \<Rightarrow>
             if nwWarning \<noteq> [] \<and> nwID = [] then
               (([], Some (Error (blueprintName
                                   @ '': fatal warning while creating docker network. ''
                                   @ nwWarning))), tr1)
             else if nwID = [] then
               (([], Some (Error (blueprintName
                                   @ '': unexpected empty ID while creating networkID''))), tr1)
             else ((nwID, None), tr1))"

section \<open>Fleet orchestration\<close>

text \<open>The polling loop of \<open>ConstructBlueprints\<close>, \<open>for i := 0; i < 50; i++\<close>. It ends with
  an error of the listing, or with the value of \<open>foundImages\<close>.\<close>

function pollImages ::
  "world \<Rightarrow> nat \<Rightarrow> nat \<Rightarrow> history \<Rightarrow> (error + bool) \<times> history" where
  "pollImages rt lenbs i tr =
     (if i < 50 then
        (case Docker_ImageList rt tr complementLabel of
           Inl err \<Rightarrow> (Inl err, tr @ [EvImageList complementLabel])
         | Inr images \<Rightarrow>
             if length images < lenbs
             then pollImages rt lenbs (i + 1) (tr @ [EvImageList complementLabel, EvSleep 100])
             else (Inr True, tr @ [EvImageList complementLabel]))
      else (Inr False, tr))"
  by pat_completeness auto
termination
  by (relation "measure (\<lambda>(rt, lenbs, i, tr). 50 - i)") auto

declare pollImages.simps [simp del]

text \<open>
  \<open>ConstructBlueprints\<close> starts one goroutine per blueprint and receives one slice of
  errors from each. The goroutines interleave freely, which is outside this embedding;
  what the rest of the function depends on is taken as given: \<open>posted\<close>, the slices in the
  order of their arrival, and \<open>tr\<close>, the history at the moment the last one has arrived.
  Nothing is assumed about either, so every interleaving is covered.
\<close>

definition ConstructBlueprints ::
  "world \<Rightarrow> Builder \<Rightarrow> Blueprint list \<Rightarrow> error list list \<Rightarrow> history
     \<Rightarrow> error option \<times> history" where
  "ConstructBlueprints rt d bs posted tr =
     (let errs = concat posted in
      if length errs > 0 then (Some (hd errs), tr)
      else (case pollImages rt (length bs) 0 tr of
              (Inl err, tr1) \<Rightarrow> (Some err, tr1)
            | (Inr foundImages, tr1) \<Rightarrow>
                (let (nwErr, tr2) = removeNetworks rt tr1 in
                 if \<not> foundImages
                 then (Some (Error ''failed to find built images via ImageList: did they all build ok?''), tr2)
                 else (None, tr2))))"

section \<open>Trust anchor\<close>

text \<open>The functions of package \<open>strings\<close> that \<open>getCaVolume\<close> uses, for ASCII text.\<close>

definition Contains :: "string \<Rightarrow> string \<Rightarrow> bool" where
  "Contains s substr = sublist substr s"

definition isSpace :: "char \<Rightarrow> bool" where
  "isSpace c = (c \<in> set [CHR 0x09, CHR 0x0A, CHR 0x0B, CHR 0x0C, CHR 0x0D, CHR 0x20])"

definition TrimSpace :: "string \<Rightarrow> string" where
  "TrimSpace s = rev (dropWhile isSpace (rev (dropWhile isSpace s)))"

fun splitAcc :: "char \<Rightarrow> string \<Rightarrow> string \<Rightarrow> string list" where
  "splitAcc sep cur [] = [rev cur]"
| "splitAcc sep cur (c # cs) =
     (if c = sep then rev cur # splitAcc sep [] cs else splitAcc sep (c # cur) cs)"

definition Split :: "string \<Rightarrow> char \<Rightarrow> string list" where
  "Split s sep = splitAcc sep [] s"

fun Join :: "string list \<Rightarrow> string \<Rightarrow> string" where
  "Join [] sep = []"
| "Join [x] sep = x"
| "Join (x # y # ys) sep = x @ sep @ Join (y # ys) sep"

text \<open>The loop of \<open>getCaVolume\<close> over the mounts: the last mount at \<open>/ca\<close> wins.\<close>

definition caVolumeName :: "MountPoint list \<Rightarrow> string" where
  "caVolumeName mounts =
     fold (\<lambda>m volumeName. if mp_Destination m = ''/ca'' then mp_Name m else volumeName)
          mounts []"

text \<open>\<open>getCaVolume\<close> returns \<open>(caVolume, caMount, err)\<close>; the first two are nil whenever
  the error is not. The volume map is the list of its keys. The mode \<open>0770\<close> is 504.\<close>

definition getCaVolume ::
  "world \<Rightarrow> history \<Rightarrow> (error + (string list \<times> Mount list)) \<times> history" where
  "getCaVolume rt tr =
     (if os_Getenv rt ''CI'' = ''true'' then
        (let tr1 = tr @ [EvReadFile ''/proc/1/cpuset''] in
         case os_ReadFile rt tr ''/proc/1/cpuset'' of
           Inl err \<Rightarrow> (Inl err, tr1)
         | Inr cpuset \<Rightarrow>
             if \<not> Contains cpuset ''docker''
             then (Inl (Error ''Could not identify container ID using /proc/1/cpuset''), tr1)
             else
               (let cpusetList = Split (TrimSpace cpuset) CHR ''/'';
                    containerId = last cpusetList;
                    tr2 = tr1 @ [EvContainerInspect containerId]
                in case Docker_ContainerInspect rt tr1 containerId of
                     Inl err \<Rightarrow> (Inl err, tr2)
                   | Inr container \<Rightarrow>
                       (let volumeName = caVolumeName (cj_Mounts container) in
                        if volumeName = [] then (Inr ([], []), tr2)
                        else (Inr ([''/ca''],
                                   [\<lparr>mount_Type = TypeVolume, mount_Source = volumeName,
                                     mount_Target = ''/ca''\<rparr>]), tr2))))
      else
        (let tr1 = tr @ [EvGetwd] in
         case os_Getwd rt tr of
           Inl err \<Rightarrow> (Inl err, tr1)
         | Inr cwd \<Rightarrow>
             (let caCertificateDirHost = path_Join rt cwd ''ca'';
                  tr2 = tr1 @ [EvStat caCertificateDirHost];
                  caMount = [\<lparr>mount_Type = TypeBind, mount_Source = path_Join rt cwd ''ca'',
                              mount_Target = ''/ca''\<rparr>]
              in if os_StatIsNotExist rt tr1 caCertificateDirHost then
                   (case os_Mkdir rt tr2 caCertificateDirHost of
                      Some err \<Rightarrow> (Inl err, tr2 @ [EvMkdir caCertificateDirHost 504])
                    | None \<Rightarrow> (Inr ([], caMount), tr2 @ [EvMkdir caCertificateDirHost 504]))
                 else (Inr ([], caMount), tr2))))"

section \<open>Deploying one homeserver\<close>

record HomeserverDeployment =
  hd_BaseURL :: string
  hd_FedBaseURL :: string
  hd_ContainerID :: string
  hd_AccessTokens :: gomap
  hd_ApplicationServices :: gomap

text \<open>\<open>fmt.Sprintf("%d", n)\<close>.\<close>

fun digitsOf :: "nat \<Rightarrow> string" where
  "digitsOf n =
     (if n < 10 then [''0123456789'' ! n]
      else digitsOf (n div 10) @ [''0123456789'' ! (n mod 10)])"

declare digitsOf.simps [simp del]

definition fmtInt :: "int \<Rightarrow> string" where
  "fmtInt i = (if i < 0 then CHR ''-'' # digitsOf (nat (- i)) else digitsOf (nat i))"

text \<open>\<open>endpoints\<close> returns \<open>(baseURL, fedBaseURL, err)\<close>. Indexing the first binding of a
  published port panics when the port has no binding.\<close>

definition endpoints ::
  "world \<Rightarrow> PortMap \<Rightarrow> int \<Rightarrow> int \<Rightarrow> (string \<times> string \<times> error option) outcome" where
  "endpoints rt p csPort ssPort =
     (let csapiPort = fmtInt csPort @ ''/tcp'' in
      case map_of p csapiPort of
        None \<Rightarrow>
          Returns ([], [], Some (Error (''port '' @ csapiPort
                                   @ '' not exposed - exposed ports: '' @ fmt_PortMap rt p)))
      | Some csapiPortInfo \<Rightarrow>
          (case csapiPortInfo of
             [] \<Rightarrow> Panic
           | csb # _ \<Rightarrow>
               (let baseURL = ''http://'' @ HostnameRunningDocker rt @ '':'' @ pb_HostPort csb;
                    ssapiPort = fmtInt ssPort @ ''/tcp''
                in case map_of p ssapiPort of
                     None \<Rightarrow>
                       Returns ([], [], Some (Error (''port '' @ ssapiPort
                                   @ '' not exposed - exposed ports: '' @ fmt_PortMap rt p)))
                   | Some ssapiPortInfo \<Rightarrow>
                       (case ssapiPortInfo of
                          [] \<Rightarrow> Panic
                        | ssb # _ \<Rightarrow>
                            Returns (baseURL,
                                     ''https://'' @ HostnameRunningDocker rt @ '':''
                                       @ pb_HostPort ssb,
                                     None)))))"

text \<open>The environment that \<open>deployImage\<close> builds for the container.\<close>

definition deployEnv :: "world \<Rightarrow> string \<Rightarrow> gomap \<Rightarrow> string list" where
  "deployEnv rt hsName asIDToRegistrationMap =
     (let env0 = [''SERVER_NAME='' @ hsName,
                  ''COMPLEMENT_CA='' @ os_Getenv rt ''COMPLEMENT_CA''];
          (env, asIDs) =
            fold (\<lambda>(asID, registration) (env, asIDs).
                    (env @ [(''AS_REGISTRATION_'' @ asID @ ''='') @ registration],
                     asIDs @ [asID]))
                 asIDToRegistrationMap (env0, [])
      in env @ [''AS_REGISTRATION_IDS='' @ Join asIDs '' ''])"

text \<open>The request that \<open>deployImage\<close> sends to \<open>ContainerCreate\<close>.\<close>

definition deployCreateRequest ::
  "world \<Rightarrow> string \<Rightarrow> string \<Rightarrow> string \<Rightarrow> string \<Rightarrow> gomap \<Rightarrow> string \<Rightarrow> string
     \<Rightarrow> string list \<Rightarrow> Mount list \<Rightarrow> CreateRequest" where
  "deployCreateRequest rt imageID containerName blueprintName hsName asIDToRegistrationMap
       contextStr networkID caVolume caMount =
     \<lparr>cr_Image = imageID,
      cr_Env = deployEnv rt hsName asIDToRegistrationMap,
      cr_Labels = [(complementLabel, contextStr),
                   (''complement_blueprint'', blueprintName),
                   (''complement_hs_name'', hsName)],
      cr_Volumes = caVolume,
      cr_PublishAllPorts = True,
      cr_ExtraHosts = (if runtime_GOOS rt = ''linux''
                       then [HostnameRunningComplement @ '':172.17.0.1''] else []),
      cr_Mounts = caMount,
      cr_EndpointName = hsName,
      cr_NetworkID = networkID,
      cr_Aliases = [hsName],
      cr_ContainerName = containerName\<rparr>"

text \<open>The health check, \<open>for i := 0; i < versionCheckIterations; i++\<close>, threading
  \<open>lastErr\<close>; it returns the final \<open>lastErr\<close>. Go's \<open>int\<close> is modelled by the
  integers: the counter never exceeds the bound, so it cannot wrap.\<close>

function versionCheck ::
  "world \<Rightarrow> string \<Rightarrow> int \<Rightarrow> int \<Rightarrow> error option \<Rightarrow> history \<Rightarrow> error option \<times> history" where
  "versionCheck rt versionsURL versionCheckIterations i lastErr tr =
     (if i < versionCheckIterations then
        (case http_Get rt tr versionsURL of
           Inl err \<Rightarrow>
             versionCheck rt versionsURL versionCheckIterations (i + 1)
               (Some (Error (''GET '' @ versionsURL @ '' => error: '' @ message err)))
               (tr @ [EvHttpGet versionsURL, EvSleep 50])
         | Inr (statusCode, status) \<Rightarrow>
             if statusCode \<noteq> 200 then
               versionCheck rt versionsURL versionCheckIterations (i + 1)
                 (Some (Error (''GET '' @ versionsURL @ '' => HTTP '' @ status)))
                 (tr @ [EvHttpGet versionsURL, EvSleep 50])
             else (None, tr @ [EvHttpGet versionsURL]))
      else (lastErr, tr))"
  by pat_completeness auto
termination
  by (relation "measure (\<lambda>(rt, url, n, i, lastErr, tr). nat (n - i))") auto

declare versionCheck.simps [simp del]

text \<open>What one attempt of the health check leaves in \<open>lastErr\<close>, given the answer to its
  request: the two failure branches of the loop body, and nil for a 200.\<close>

definition pollFailure :: "string \<Rightarrow> error + (int \<times> string) \<Rightarrow> error option" where
  "pollFailure versionsURL answer =
     (case answer of
        Inl err \<Rightarrow> Some (Error (''GET '' @ versionsURL @ '' => error: '' @ message err))
      | Inr (statusCode, status) \<Rightarrow>
          if statusCode \<noteq> 200
          then Some (Error (''GET '' @ versionsURL @ '' => HTTP '' @ status))
          else None)"

text \<open>\<open>deployImage\<close> returns the pair \<open>(deployment, err)\<close>, the deployment being nil
  (\<open>None\<close>) on the early exits.\<close>

definition deployImage ::
  "world \<Rightarrow> string \<Rightarrow> int \<Rightarrow> string \<Rightarrow> string \<Rightarrow> string \<Rightarrow> gomap \<Rightarrow> string \<Rightarrow> string \<Rightarrow> int
     \<Rightarrow> history \<Rightarrow> (HomeserverDeployment option \<times> error option) outcome \<times> history" where
  "deployImage rt imageID csPort containerName blueprintName hsName asIDToRegistrationMap
       contextStr networkID versionCheckIterations tr =
     (case (if os_Getenv rt ''COMPLEMENT_CA'' = ''true'' then getCaVolume rt tr
            else (Inr ([], []), tr)) of
        (Inl err, tr0) \<Rightarrow> (Returns (None, Some err), tr0)
      | (Inr (caVolume, caMount), tr0) \<Rightarrow>
          (let req = deployCreateRequest rt imageID containerName blueprintName hsName
                       asIDToRegistrationMap contextStr networkID caVolume caMount;
               tr1 = tr0 @ [EvContainerCreate req]
           in case Docker_ContainerCreate rt tr0 req of
                Inl err \<Rightarrow> (Returns (None, Some err), tr1)
              | Inr containerID \<Rightarrow>
                  (let tr2 = tr1 @ [EvContainerStart containerID] in
                   case Docker_ContainerStart rt tr1 containerID of
                     Some err \<Rightarrow> (Returns (None, Some err), tr2)
                   | None \<Rightarrow>
                       (let tr3 = tr2 @ [EvContainerInspect containerID] in
                        case Docker_ContainerInspect rt tr2 containerID of
                          Inl err \<Rightarrow> (Returns (None, Some err), tr3)
                        | Inr inspect \<Rightarrow>
                            (case endpoints rt (cj_Ports inspect) 8008 8448 of
                               Panic \<Rightarrow> (Panic, tr3)
                             | Returns (baseURL, fedBaseURL, Some err) \<Rightarrow>
                                 (Returns (None, Some (Error (contextStr @ '' : image ''
                                     @ imageID @ '' : '' @ message err))), tr3)
                             | Returns (baseURL, fedBaseURL, None) \<Rightarrow>
                                 (let versionsURL = baseURL @ ''/_matrix/client/versions'';
                                      (lastErr, tr4) =
                                         versionCheck rt versionsURL versionCheckIterations 0
                                           None tr3;
                                      d = \<lparr>hd_BaseURL = baseURL,
                                           hd_FedBaseURL = fedBaseURL,
                                           hd_ContainerID = containerID,
                                           hd_AccessTokens =
                                             tokensFromLabels (cj_Labels inspect),
                                           hd_ApplicationServices =
                                             asIDToRegistrationFromLabels (cj_Labels inspect)\<rparr>
                                  in case lastErr of
                                       Some e \<Rightarrow>
                                         (Returns (Some d, Some (Error (contextStr
                                             @ '': failed to check server is up. ''
                                             @ message e))), tr4)
                                     | None \<Rightarrow> (Returns (Some d, None), tr4)))))))"

definition deployBaseImage ::
  "world \<Rightarrow> Builder \<Rightarrow> string \<Rightarrow> Homeserver \<Rightarrow> string \<Rightarrow> string \<Rightarrow> history
     \<Rightarrow> (HomeserverDeployment option \<times> error option) outcome \<times> history" where
  "deployBaseImage rt d blueprintName hs contextStr networkID tr =
     (let asIDToRegistrationMap = asIDToRegistrationFromLabels (labelsForApplicationServices hs)
      in deployImage rt (BaseImage d) (CSAPIPort d) (''complement_'' @ contextStr) blueprintName
           (hs_Name hs) asIDToRegistrationMap contextStr networkID
           (cfg_VersionCheckIterations (config d)) tr)"

section \<open>Constructing one blueprint\<close>

record result =
  res_err :: "error option"
  res_containerID :: string
  res_contextStr :: string
  res_homeserver :: Homeserver

text \<open>\<open>printLogs\<close> asks for the container's logs and copies them to the log; whether the
  request fails changes the log output only.\<close>

definition printLogs :: "world \<Rightarrow> string \<Rightarrow> string \<Rightarrow> history \<Rightarrow> history" where
  "printLogs rt containerID contextStr tr = tr @ [EvContainerLogs containerID]"

text \<open>The runner of a blueprint is named by the blueprint. A successful deployment
  without a deployment value cannot come out of \<open>deployImage\<close>; dereferencing it would
  panic.\<close>

definition constructHomeserver ::
  "world \<Rightarrow> Builder \<Rightarrow> string \<Rightarrow> Homeserver \<Rightarrow> string \<Rightarrow> history \<Rightarrow> result outcome \<times> history" where
  "constructHomeserver rt d blueprintName hs networkID tr =
     (let contextStr = blueprintName @ ''.'' @ hs_Name hs in
      case deployBaseImage rt d blueprintName hs contextStr networkID tr of
        (Panic, tr1) \<Rightarrow> (Panic, tr1)
      | (Returns (dep, Some err), tr1) \<Rightarrow>
          (Returns \<lparr>res_err = Some err,
                    res_containerID = (case dep of None \<Rightarrow> [] | Some dp \<Rightarrow> hd_ContainerID dp),
                    res_contextStr = contextStr,
                    res_homeserver = hs\<rparr>, tr1)
      | (Returns (None, None), tr1) \<Rightarrow> (Panic, tr1)
      | (Returns (Some dp, None), tr1) \<Rightarrow>
          (Returns \<lparr>res_err = runner_Run rt tr1 blueprintName hs (hd_BaseURL dp),
                    res_containerID = hd_ContainerID dp,
                    res_contextStr = contextStr,
                    res_homeserver = hs\<rparr>,
           tr1 @ [EvRun blueprintName (hs_Name hs) (hd_BaseURL dp)]))"

text \<open>The first loop of \<open>construct\<close>. It returns the results and errors so far and whether
  a homeserver's construction panicked (which ends the loop).\<close>

fun constructHomeservers ::
  "world \<Rightarrow> Builder \<Rightarrow> string \<Rightarrow> string \<Rightarrow> Homeserver list \<Rightarrow> result list \<Rightarrow> error list
     \<Rightarrow> history \<Rightarrow> (result list \<times> error list \<times> bool) \<times> history" where
  "constructHomeservers rt d blueprintName networkID [] results errs tr =
     ((results, errs, False), tr)"
| "constructHomeservers rt d blueprintName networkID (hs # rest) results errs tr =
     (case constructHomeserver rt d blueprintName hs networkID tr of
        (Panic, tr1) \<Rightarrow> ((results, errs, True), tr1)
      | (Returns res, tr1) \<Rightarrow>
          (case res_err res of
             None \<Rightarrow>
               constructHomeservers rt d blueprintName networkID rest (results @ [res]) errs tr1
           | Some e \<Rightarrow>
               constructHomeservers rt d blueprintName networkID rest (results @ [res])
                 (errs @ [e])
                 (if res_containerID res \<noteq> []
                  then printLogs rt (res_containerID res) (res_contextStr res) tr1
                  else tr1)))"

text \<open>The commit pass.\<close>

fun commitContainers ::
  "world \<Rightarrow> string \<Rightarrow> result list \<Rightarrow> error list \<Rightarrow> history \<Rightarrow> error list \<times> history" where
  "commitContainers rt blueprintName [] errs tr = (errs, tr)"
| "commitContainers rt blueprintName (res # results) errs tr =
     (case res_err res of
        Some e \<Rightarrow> commitContainers rt blueprintName results errs tr
      | None \<Rightarrow>
          (let labels = commitLabels
                          (runner_AccessTokens rt tr blueprintName (hs_Name (res_homeserver res)))
                          (res_homeserver res);
               opts = \<lparr>co_Author = ''Complement'', co_Pause = True,
                       co_Reference = ''localhost/complement:'' @ res_contextStr res,
                       co_Labels = labels\<rparr>;
               tr1 = tr @ [EvContainerCommit (res_containerID res) opts]
           in case Docker_ContainerCommit rt tr (res_containerID res) opts of
                Inl err \<Rightarrow>
                  commitContainers rt blueprintName results
                    (errs @ [Error (res_contextStr res @ '' : failed to ContainerCommit: ''
                                    @ message err)]) tr1
              | Inr commitID \<Rightarrow> commitContainers rt blueprintName results errs tr1))"

text \<open>The deferred kills, given in the order in which they run; a failing kill is logged.\<close>

fun killContainers :: "world \<Rightarrow> result list \<Rightarrow> history \<Rightarrow> history" where
  "killContainers rt [] tr = tr"
| "killContainers rt (r # rs) tr =
     killContainers rt rs (tr @ [EvContainerKill (res_containerID r) ''KILL''])"

text \<open>\<open>construct\<close>: the deferred kills run last in first out when the function returns,
  and also when a panic unwinds it. The function is modelled as it runs by itself: the
  calls of other goroutines are not interleaved into its history.\<close>

definition construct ::
  "world \<Rightarrow> Builder \<Rightarrow> Blueprint \<Rightarrow> history \<Rightarrow> error list outcome \<times> history" where
  "construct rt d bprint tr =
     (case CreateNetwork rt (bp_Name bprint) tr of
        ((networkID, Some err), tr1) \<Rightarrow> (Returns [err], tr1)
      | ((networkID, None), tr1) \<Rightarrow>
          (case constructHomeservers rt d (bp_Name bprint) networkID (bp_Homeservers bprint)
                  [] [] tr1 of
             ((results, errs, True), tr2) \<Rightarrow> (Panic, killContainers rt (rev results) tr2)
           | ((results, errs, False), tr2) \<Rightarrow>
               (let (errs', tr3) = commitContainers rt (bp_Name bprint) results errs tr2
                in (Returns errs', killContainers rt (rev results) tr3))))"

text \<open>The events by which \<open>construct\<close> freezes and tears down containers.\<close>

fun isCommitOrKill :: "event \<Rightarrow> bool" where
  "isCommitOrKill (EvContainerCommit containerID opts) = True"
| "isCommitOrKill (EvContainerKill containerID signal) = True"
| "isCommitOrKill _ = False"

section \<open>Example inputs\<close>

definition exampleAS :: ApplicationService where
  "exampleAS = \<lparr>as_ID = ''bridge'', as_HSToken = ''h'', as_ASToken = ''a'',
                 as_URL = ''http://localhost:9000'', as_SenderLocalpart = ''bot'',
                 as_RateLimited = False\<rparr>"

definition exampleHS :: Homeserver where
  "exampleHS = \<lparr>hs_Name = ''hs1'', hs_ApplicationServices = [exampleAS]\<rparr>"

definition plainHS :: "string \<Rightarrow> Homeserver" where
  "plainHS n = \<lparr>hs_Name = n, hs_ApplicationServices = []\<rparr>"

definition examplePorts :: PortMap where
  "examplePorts = [(''8008/tcp'', [\<lparr>pb_HostIP = ''0.0.0.0'', pb_HostPort = ''32768''\<rparr>]),
                   (''8448/tcp'', [\<lparr>pb_HostIP = ''0.0.0.0'', pb_HostPort = ''32769''\<rparr>])]"

text \<open>A collaborator that accepts everything, names every container after its request and
  lists nothing.\<close>

definition calmWorld :: world where
  "calmWorld =
     \<lparr>Docker_NetworkCreate = (\<lambda>tr name labels. Inr (''net-'' @ name, [])),
      Docker_NetworkList = (\<lambda>tr l. Inr []),
      Docker_NetworkRemove = (\<lambda>tr n. None),
      Docker_ImageList = (\<lambda>tr l. Inr []),
      Docker_ImageRemove = (\<lambda>tr i. None),
      Docker_ContainerList = (\<lambda>tr l. Inr []),
      Docker_ContainerRemove = (\<lambda>tr c. None),
      Docker_ContainerCommit = (\<lambda>tr c opts. Inr (''sha256:'' @ c)),
      Docker_ContainerCreate = (\<lambda>tr req. Inr (''id-'' @ cr_ContainerName req)),
      Docker_ContainerStart = (\<lambda>tr c. None),
      Docker_ContainerInspect =
        (\<lambda>tr c. Inr \<lparr>cj_Mounts = [], cj_Ports = examplePorts, cj_Labels = []\<rparr>),
      http_Get = (\<lambda>tr url. Inr (200, ''200 OK'')),
      runner_Run = (\<lambda>tr bp hs url. None),
      runner_AccessTokens = (\<lambda>tr bp hs. []),
      os_Getenv = (\<lambda>k. []),
      os_ReadFile = (\<lambda>tr f. Inl (Error ''no such file'')),
      os_Getwd = (\<lambda>tr. Inr ''/work''),
      os_StatIsNotExist = (\<lambda>tr f. False),
      os_Mkdir = (\<lambda>tr f. None),
      path_Join = (\<lambda>a b. a @ ''/'' @ b),
      runtime_GOOS = ''linux'',
      fmt_PortMap = (\<lambda>p. ''map[]'')\<rparr>"

definition exampleBuilder :: Builder where
  "exampleBuilder =
     \<lparr>BaseImage = ''base'', ImageArgs = [], KeepBlueprints = [''bp1''], CSAPIPort = 8008,
      FederationPort = 8448, debugLogging = False,
      config = \<lparr>cfg_VersionCheckIterations = 2\<rparr>\<rparr>"

definition exampleImages :: "ImageSummary list" where
  "exampleImages =
     [\<lparr>img_ID = ''i1'', img_Labels = [(''complement_context'', ''bp1.hs1''),
                                       (''complement_blueprint'', ''bp1'')]\<rparr>,
      \<lparr>img_ID = ''i2'', img_Labels = [(''complement_context'', ''bp2.hs1''),
                                       (''complement_blueprint'', ''bp2'')]\<rparr>,
      \<lparr>img_ID = ''i3'', img_Labels = [(''complement_context'', ''bp3.hs1''),
                                       (''complement_blueprint'', ''bp3'')]\<rparr>,
      \<lparr>img_ID = ''i4'', img_Labels = [(''complement_context'', ''bp4.hs1'')]\<rparr>]"

text \<open>A runtime that lists three containers, four images and three networks.\<close>

definition listingWorld :: world where
  "listingWorld =
     calmWorld\<lparr>Docker_ContainerList := (\<lambda>tr l. Inr [''c1'', ''c2'', ''c3'']),
                Docker_ImageList := (\<lambda>tr l. Inr exampleImages),
                Docker_NetworkList := (\<lambda>tr l. Inr [''n1'', ''n2'', ''n3''])\<rparr>"

text \<open>The same runtime, refusing to remove the container \<open>c2\<close>, the image \<open>i3\<close> and the
  network \<open>n2\<close>.\<close>

definition refusingWorld :: world where
  "refusingWorld =
     listingWorld\<lparr>Docker_ContainerRemove :=
                     (\<lambda>tr c. if c = ''c2'' then Some (Error ''container in use'') else None),
                   Docker_ImageRemove :=
                     (\<lambda>tr i. if i = ''i3'' then Some (Error ''image in use'') else None),
                   Docker_NetworkRemove :=
                     (\<lambda>tr n. if n = ''n2'' then Some (Error ''network in use'') else None)\<rparr>"

definition exampleBlueprint :: Blueprint where
  "exampleBlueprint = \<lparr>bp_Name = ''bp1'', bp_Homeservers = [plainHS ''hs1'', plainHS ''hs2'']\<rparr>"

text \<open>A runtime whose image listing stays empty and which has one network.\<close>

definition staleWorld :: world where
  "staleWorld = calmWorld\<lparr>Docker_NetworkList := (\<lambda>tr l. Inr [''n1''])\<rparr>"

text \<open>A runtime on which no homeserver ever answers.\<close>

definition unreachableWorld :: world where
  "unreachableWorld = calmWorld\<lparr>http_Get := (\<lambda>tr url. Inl (Error ''connection refused''))\<rparr>"

text \<open>A runner whose instructions fail on the homeserver \<open>hs2\<close>.\<close>

definition brokenSetupWorld :: world where
  "brokenSetupWorld =
     calmWorld\<lparr>runner_Run :=
                  (\<lambda>tr bp hs url. if hs_Name hs = ''hs2''
                                   then Some (Error ''instruction failed'') else None)\<rparr>"

section \<open>Properties of the label codec\<close>

lemma HasPrefix_append [simp]: "HasPrefix (p @ k) p"
  by (simp add: HasPrefix_def)

lemma TrimPrefix_append [simp]: "TrimPrefix (p @ k) p = k"
  by (simp add: TrimPrefix_def)

lemma HasPrefix_iff: "HasPrefix s p \<longleftrightarrow> (\<exists>k. s = p @ k)"
  by (auto simp: HasPrefix_def prefix_def)

lemma not_as_prefix_at [simp]: "\<not> HasPrefix (''application_service_'' @ k) ''access_token_''"
  by (simp add: HasPrefix_def)

lemma not_at_prefix_as [simp]: "\<not> HasPrefix (''access_token_'' @ k) ''application_service_''"
  by (simp add: HasPrefix_def)

lemma decode_fold_lookup:
  "distinct (map fst ls) \<Longrightarrow>
   map_of (fold (\<lambda>(k, v) m. if HasPrefix k p then AList.update (TrimPrefix k p) v m else m) ls acc) u
   = (case map_of ls (p @ u) of Some v \<Rightarrow> Some v | None \<Rightarrow> map_of acc u)"
proof (induction ls arbitrary: acc)
  case Nil
  then show ?case by simp
next
  case (Cons kv ls)
  obtain k v where kv: "kv = (k, v)" by (cases kv)
  from Cons.prems kv have d: "distinct (map fst ls)" and nk: "k \<notin> fst ` set ls" by auto
  show ?case
  proof (cases "HasPrefix k p")
    case True
    then obtain w where w: "k = p @ w" by (auto simp: HasPrefix_iff)
    have none: "w = u \<Longrightarrow> map_of ls (p @ u) = None"
      using nk w by (simp add: map_of_eq_None_iff)
    show ?thesis
      using Cons.IH [OF d] w kv none
      by (auto simp: update_conv' split: option.splits)
  next
    case False
    then have "k \<noteq> p @ u" by (auto simp: HasPrefix_iff)
    then show ?thesis
      using Cons.IH [OF d] False kv by simp
  qed
qed

lemma tokensFromLabels_lookup:
  "distinct (map fst ls) \<Longrightarrow> map_of (tokensFromLabels ls) u = map_of ls (''access_token_'' @ u)"
  unfolding tokensFromLabels_def
  by (subst decode_fold_lookup) (auto split: option.splits)

lemma asIDToRegistrationFromLabels_lookup:
  "distinct (map fst ls) \<Longrightarrow>
   map_of (asIDToRegistrationFromLabels ls) u = map_of ls (''application_service_'' @ u)"
  unfolding asIDToRegistrationFromLabels_def
  by (subst decode_fold_lookup) (auto split: option.splits)

lemma fold_update_map_of:
  "map_of (fold (\<lambda>(k, v) m. AList.update (f k) v m) xs acc)
   = map_of acc ++ map_of (rev (map (\<lambda>(k, v). (f k, v)) xs))"
proof (induction xs arbitrary: acc)
  case Nil
  then show ?case by simp
next
  case (Cons kv xs)
  obtain k v where kv: "kv = (k, v)" by (cases kv)
  show ?case
    by (rule ext) (simp add: kv Cons.IH update_conv' map_add_def split: option.splits)
qed

lemma fold_update_distinct:
  "distinct (map fst acc) \<Longrightarrow>
   distinct (map fst (fold (\<lambda>(k, v) m. AList.update (f k) v m) xs acc))"
  by (induction xs arbitrary: acc) (auto simp: distinct_update)

lemma encode_fold_lookup:
  "distinct (map fst C) \<Longrightarrow>
   map_of (fold (\<lambda>(k, v) m. AList.update (p @ k) v m) C acc) (p @ u)
   = (case map_of C u of Some v \<Rightarrow> Some v | None \<Rightarrow> map_of acc (p @ u))"
proof (induction C arbitrary: acc)
  case Nil
  then show ?case by simp
next
  case (Cons kv C)
  obtain k v where kv: "kv = (k, v)" by (cases kv)
  from Cons.prems kv have d: "distinct (map fst C)" and nk: "k \<notin> fst ` set C" by auto
  have none: "k = u \<Longrightarrow> map_of C u = None"
    using nk by (simp add: map_of_eq_None_iff)
  show ?case
    using Cons.IH [OF d] kv none by (auto simp: update_conv' split: option.splits)
qed

lemma encode_fold_other:
  "\<not> HasPrefix l p \<Longrightarrow>
   map_of (fold (\<lambda>(k, v) m. AList.update (p @ k) v m) C acc) l = map_of acc l"
proof (induction C arbitrary: acc)
  case Nil
  then show ?case by simp
next
  case (Cons kv C)
  obtain k v where kv: "kv = (k, v)" by (cases kv)
  from Cons.prems have "l \<noteq> p @ k" by (auto simp: HasPrefix_iff)
  then show ?case
    using Cons.IH [OF Cons.prems] kv by (simp add: update_conv')
qed

lemma labelsForTokens_lookup:
  "distinct (map fst C) \<Longrightarrow> map_of (labelsForTokens C) (''access_token_'' @ u) = map_of C u"
  unfolding labelsForTokens_def
  by (subst encode_fold_lookup) (auto split: option.splits)

lemma labelsForTokens_other:
  "\<not> HasPrefix l ''access_token_'' \<Longrightarrow> map_of (labelsForTokens C) l = None"
  unfolding labelsForTokens_def
  by (subst encode_fold_other) auto

lemma labelsForTokens_distinct: "distinct (map fst (labelsForTokens C))"
  unfolding labelsForTokens_def by (rule fold_update_distinct) simp

lemma asLabelStep_map_of:
  "map_of (asLabelStep n a labels) =
     (map_of labels)(''application_service_'' @ as_ID a \<mapsto> registrationDocument a,
                     ''access_token_'' @ senderUserID n a \<mapsto> fixedASToken)"
  by (simp add: asLabelStep_def Let_def update_conv' registrationDocument_def senderUserID_def)

lemma asLabelStep_distinct:
  "distinct (map fst labels) \<Longrightarrow> distinct (map fst (asLabelStep n a labels))"
  by (simp add: asLabelStep_def Let_def distinct_update)

lemma asLabels_fold_distinct:
  "distinct (map fst acc) \<Longrightarrow> distinct (map fst (fold (asLabelStep n) asl acc))"
  by (induction asl arbitrary: acc) (auto simp: asLabelStep_distinct)

lemma asLabels_fold_registration:
  "map_of (fold (asLabelStep n) asl acc) (''application_service_'' @ i)
   = (case map_of (rev (map (\<lambda>as. (as_ID as, registrationDocument as)) asl)) i of
        Some d \<Rightarrow> Some d
      | None \<Rightarrow> map_of acc (''application_service_'' @ i))"
proof (induction asl arbitrary: acc)
  case Nil
  then show ?case by simp
next
  case (Cons a asl)
  show ?case
    using Cons.IH [of "asLabelStep n a acc"]
    by (simp add: asLabelStep_map_of map_add_def split: option.splits)
qed

lemma asLabels_fold_sender:
  "map_of (fold (asLabelStep n) asl acc) (''access_token_'' @ u)
   = (if u \<in> senderUserID n ` set asl then Some fixedASToken
      else map_of acc (''access_token_'' @ u))"
proof (induction asl arbitrary: acc)
  case Nil
  then show ?case by simp
next
  case (Cons a asl)
  show ?case
    using Cons.IH [of "asLabelStep n a acc"]
    by (auto simp: asLabelStep_map_of)
qed

lemma labelsForApplicationServices_distinct:
  "distinct (map fst (labelsForApplicationServices hs))"
  unfolding labelsForApplicationServices_def by (rule asLabels_fold_distinct) simp

lemma labelsForApplicationServices_registration:
  "map_of (labelsForApplicationServices hs) (''application_service_'' @ i) = asRegistrations hs i"
  using asLabels_fold_registration [of "hs_Name hs" "hs_ApplicationServices hs" "[]" i]
  unfolding labelsForApplicationServices_def asRegistrations_def
  by (simp split: option.splits)

lemma map_of_const_lookup:
  "map_of (map (\<lambda>a. (f a, c)) xs) u = (if u \<in> f ` set xs then Some c else None)"
  by (induction xs) auto

lemma senderCredentials_lookup:
  "senderCredentials hs u =
     (if u \<in> senderUserID (hs_Name hs) ` set (hs_ApplicationServices hs)
      then Some fixedASToken else None)"
  unfolding senderCredentials_def by (rule map_of_const_lookup)

lemma labelsForApplicationServices_sender:
  "map_of (labelsForApplicationServices hs) (''access_token_'' @ u) = senderCredentials hs u"
  using asLabels_fold_sender [of "hs_Name hs" "hs_ApplicationServices hs" "[]" u]
  unfolding labelsForApplicationServices_def
  by (simp add: senderCredentials_lookup)

lemma overlay_fold_lookup:
  fixes xs :: "('a list \<times> 'b) list"
  shows "distinct (map fst xs) \<Longrightarrow>
   map_of (fold (\<lambda>(k, v) m. AList.update k v m) xs acc) l
   = (case map_of xs l of Some v \<Rightarrow> Some v | None \<Rightarrow> map_of acc l)"
  using encode_fold_lookup [where C = xs and p = "[]" and acc = acc and u = l]
  by (simp split: option.splits)

lemma commitLabels_lookup:
  "map_of (commitLabels C hs) l =
     (case map_of (labelsForApplicationServices hs) l of
        Some v \<Rightarrow> Some v
      | None \<Rightarrow> map_of (labelsForTokens C) l)"
  unfolding commitLabels_def
  by (rule overlay_fold_lookup) (rule labelsForApplicationServices_distinct)

lemma commitLabels_distinct: "distinct (map fst (commitLabels C hs))"
  unfolding commitLabels_def
  using fold_update_distinct [of "labelsForTokens C" "\<lambda>k. k"]
  by (simp add: labelsForTokens_distinct)

lemma decode_commit_tokens:
  assumes "distinct (map fst C)" and "distinct (map fst ls)"
    and "map_of ls = map_of (commitLabels C hs)"
  shows "map_of (tokensFromLabels ls) = map_of C ++ senderCredentials hs"
proof (rule ext)
  fix u
  have "map_of (tokensFromLabels ls) u = map_of (commitLabels C hs) (''access_token_'' @ u)"
    using assms by (simp only: tokensFromLabels_lookup)
  also have "\<dots> = (case senderCredentials hs u of Some v \<Rightarrow> Some v | None \<Rightarrow> map_of C u)"
    by (simp only: commitLabels_lookup labelsForApplicationServices_sender
        labelsForTokens_lookup [OF assms(1)])
  also have "\<dots> = (map_of C ++ senderCredentials hs) u"
    by (simp add: map_add_def)
  finally show "map_of (tokensFromLabels ls) u = (map_of C ++ senderCredentials hs) u" .
qed

lemma decode_commit_registrations:
  assumes "distinct (map fst ls)" and "map_of ls = map_of (commitLabels C hs)"
  shows "map_of (asIDToRegistrationFromLabels ls) = asRegistrations hs"
proof (rule ext)
  fix i
  have "\<not> HasPrefix (''application_service_'' @ i) ''access_token_''"
    by (rule not_as_prefix_at)
  then have none: "map_of (labelsForTokens C) (''application_service_'' @ i) = None"
    by (rule labelsForTokens_other)
  have "map_of (asIDToRegistrationFromLabels ls) i
        = map_of (commitLabels C hs) (''application_service_'' @ i)"
    using assms by (simp only: asIDToRegistrationFromLabels_lookup)
  also have "\<dots> = asRegistrations hs i"
    by (simp only: commitLabels_lookup labelsForApplicationServices_registration none)
       (simp split: option.splits)
  finally show "map_of (asIDToRegistrationFromLabels ls) i = asRegistrations hs i" .
qed

text \<open>
  Claim C1, as stated, fails. Take no credentials and the homeserver \<open>hs1\<close> with the one
  application service \<open>bridge\<close> (sender \<open>bot\<close>); neither the credential map nor the
  application-service map has a key with a reserved prefix. Decoding the labels that the
  commit step builds does not give back the empty credential map: it holds \<open>@bot:hs1\<close>.
\<close>

theorem codec_roundtrip_counterexample:
  "\<not> (map_of (tokensFromLabels (commitLabels [] exampleHS)) = map_of []
      \<and> map_of (asIDToRegistrationFromLabels (commitLabels [] exampleHS))
          = asRegistrations exampleHS)"
proof -
  have "map_of (tokensFromLabels (commitLabels [] exampleHS)) ''@bot:hs1'' = Some fixedASToken"
    by (simp add: tokensFromLabels_def commitLabels_def labelsForTokens_def
        labelsForApplicationServices_def asLabelStep_def exampleHS_def exampleAS_def
        HasPrefix_def TrimPrefix_def Let_def)
  then show ?thesis by auto
qed

text \<open>
  Claim C1, amended. For every credential map \<open>C\<close> and homeserver \<open>hs\<close>, and for every order
  \<open>ls\<close> in which the labels built at commit time are visited: the decoded
  application-service map is exactly the map of \<open>hs\<close>'s registration documents, and the
  decoded credential map is \<open>C\<close> overridden with one entry per application service, the
  sender \<open>@<sender_localpart>:<homeserver name>\<close> with the fixed token. When the homeserver
  has no application service the decoded pair is exactly \<open>C\<close> and the empty map. No
  condition on reserved prefixes in the keys is needed.
\<close>

theorem codec_roundtrip:
  assumes "distinct (map fst C)" and "distinct (map fst ls)"
    and "map_of ls = map_of (commitLabels C hs)"
  shows "map_of (tokensFromLabels ls) = map_of C ++ senderCredentials hs
       \<and> map_of (asIDToRegistrationFromLabels ls) = asRegistrations hs
       \<and> (hs_ApplicationServices hs = [] \<longrightarrow>
            map_of (tokensFromLabels ls) = map_of C
          \<and> map_of (asIDToRegistrationFromLabels ls) = Map.empty)"
proof -
  have t: "map_of (tokensFromLabels ls) = map_of C ++ senderCredentials hs"
    using assms by (rule decode_commit_tokens)
  have r: "map_of (asIDToRegistrationFromLabels ls) = asRegistrations hs"
    using assms(2,3) by (rule decode_commit_registrations)
  have e: "hs_ApplicationServices hs = [] \<Longrightarrow> senderCredentials hs = Map.empty"
    by (simp add: senderCredentials_def)
  have e': "hs_ApplicationServices hs = [] \<Longrightarrow> asRegistrations hs = Map.empty"
    by (simp add: asRegistrations_def)
  show ?thesis using t r e e' by simp
qed

text \<open>Claim C1, amended: an instance with one credential, with and without an application
  service.\<close>

theorem codec_roundtrip_witness:
  "distinct (map fst [(''@alice:hs1'', ''secret'')])
   \<and> distinct (map fst (commitLabels [(''@alice:hs1'', ''secret'')] exampleHS))
   \<and> map_of (tokensFromLabels (commitLabels [(''@alice:hs1'', ''secret'')] exampleHS))
       = map_of [(''@alice:hs1'', ''secret'')] ++ senderCredentials exampleHS
   \<and> map_of (asIDToRegistrationFromLabels (commitLabels [(''@alice:hs1'', ''secret'')] exampleHS))
       = asRegistrations exampleHS
   \<and> hs_ApplicationServices (plainHS ''hs2'') = []
   \<and> map_of (tokensFromLabels (commitLabels [(''@alice:hs1'', ''secret'')] (plainHS ''hs2'')))
       = map_of [(''@alice:hs1'', ''secret'')]"
proof -
  have d1: "distinct (map fst [(''@alice:hs1'', ''secret'')])" by simp
  have d2: "distinct (map fst (commitLabels [(''@alice:hs1'', ''secret'')] exampleHS))"
    by (simp add: commitLabels_def labelsForTokens_def
        labelsForApplicationServices_def asLabelStep_def exampleHS_def exampleAS_def Let_def)
  have d3: "distinct (map fst (commitLabels [(''@alice:hs1'', ''secret'')] (plainHS ''hs2'')))"
    by (simp add: commitLabels_def labelsForTokens_def
        labelsForApplicationServices_def plainHS_def)
  have e: "hs_ApplicationServices (plainHS ''hs2'') = []" by (simp add: plainHS_def)
  have plain: "map_of (tokensFromLabels (commitLabels [(''@alice:hs1'', ''secret'')] (plainHS ''hs2'')))
       = map_of [(''@alice:hs1'', ''secret'')]"
    using codec_roundtrip [OF d1 d3 refl] e by blast
  show ?thesis
    using codec_roundtrip [OF d1 d2 refl] plain d1 d2 e by blast
qed

lemma deployEnv_fold:
  "fold (\<lambda>(asID, registration) (env, asIDs). (env @ [f asID registration], asIDs @ [asID]))
        m (env0, ids0)
   = (env0 @ map (\<lambda>(asID, registration). f asID registration) m, ids0 @ map fst m)"
  by (induction m arbitrary: env0 ids0) (auto split: prod.splits)

lemma deployEnv_eq:
  "deployEnv rt hsName m =
     [''SERVER_NAME='' @ hsName, ''COMPLEMENT_CA='' @ os_Getenv rt ''COMPLEMENT_CA'']
     @ map (\<lambda>(asID, registration). (''AS_REGISTRATION_'' @ asID @ ''='') @ registration) m
     @ [''AS_REGISTRATION_IDS='' @ Join (map fst m) '' '']"
  unfolding deployEnv_def Let_def
  by (subst deployEnv_fold) simp

lemma asRegistrations_member:
  assumes "a \<in> set (hs_ApplicationServices hs)"
  shows "\<exists>a' \<in> set (hs_ApplicationServices hs).
           as_ID a' = as_ID a \<and> asRegistrations hs (as_ID a) = Some (registrationDocument a')"
proof -
  let ?xs = "rev (map (\<lambda>as. (as_ID as, registrationDocument as)) (hs_ApplicationServices hs))"
  have "as_ID a \<in> fst ` set ?xs" using assms by force
  then obtain v where v: "map_of ?xs (as_ID a) = Some v"
    by (cases "map_of ?xs (as_ID a)") (auto simp: map_of_eq_None_iff)
  then have "(as_ID a, v) \<in> set ?xs" by (rule map_of_SomeD)
  then obtain a' where "a' \<in> set (hs_ApplicationServices hs)" "as_ID a' = as_ID a"
    "v = registrationDocument a'" by auto
  with v show ?thesis unfolding asRegistrations_def by blast
qed

lemma registrationDocument_eq:
  "registrationDocument a =
     ''id: '' @ as_ID a @ ''\<newline>'' @
     ''hs_token: '' @ fixedHSToken @ ''\<newline>'' @
     ''as_token: '' @ fixedASToken @ ''\<newline>'' @
     ''url: '' @ [CHR 0x27] @ as_URL a @ [CHR 0x27] @ ''\<newline>'' @
     ''sender_localpart: '' @ as_SenderLocalpart a @ ''\<newline>'' @
     ''rate_limited: '' @ (if as_RateLimited a then ''true'' else ''false'') @ ''\<newline>'' @
     ''namespaces:\<newline>  users: []\<newline>  rooms: []\<newline>  aliases: []\<newline>''"
  by (simp add: registrationDocument_def generateASRegistrationYaml_def fmtBool_def)

lemma decoded_registrations_lookup:
  "map_of (asIDToRegistrationFromLabels (labelsForApplicationServices hs)) i = asRegistrations hs i"
  by (simp only: asIDToRegistrationFromLabels_lookup [OF labelsForApplicationServices_distinct]
      labelsForApplicationServices_registration)

lemma decode_fold_distinct:
  "distinct (map fst acc) \<Longrightarrow>
   distinct (map fst (fold (\<lambda>(k, v) asMap.
                              if HasPrefix k p then AList.update (TrimPrefix k p) v asMap
                              else asMap) ls acc))"
  by (induction ls arbitrary: acc) (auto simp: distinct_update)

lemma asIDToRegistrationFromLabels_distinct:
  "distinct (map fst (asIDToRegistrationFromLabels ls))"
  unfolding asIDToRegistrationFromLabels_def by (rule decode_fold_distinct) simp

text \<open>
  Claim C9. For every application service \<open>a\<close> of a homeserver, the application-service
  labels hold, besides the key \<open>application_service_<id>\<close>, the key
  \<open>access_token_@<sender_localpart>:<homeserver name>\<close> with the fixed application-service
  token. Hence, whatever credentials the runner reports (none included) and in whatever
  order the labels are visited, the credential map decoded from the labels of the
  committed image holds that sender and is not empty; and the commit of a homeserver
  without error attaches exactly these labels.
\<close>

theorem sender_credential_label:
  assumes "a \<in> set (hs_ApplicationServices hs)"
  shows "map_of (labelsForApplicationServices hs)
           (''access_token_@'' @ as_SenderLocalpart a @ '':'' @ hs_Name hs) = Some fixedASToken
       \<and> map_of (labelsForApplicationServices hs) (''application_service_'' @ as_ID a) \<noteq> None
       \<and> (\<forall>tokens ls. distinct (map fst ls) \<and> map_of ls = map_of (commitLabels tokens hs) \<longrightarrow>
             map_of (tokensFromLabels ls) (''@'' @ as_SenderLocalpart a @ '':'' @ hs_Name hs)
               = Some fixedASToken
           \<and> tokensFromLabels ls \<noteq> [])
       \<and> (\<forall>rt bp res errs tr. res_err res = None \<and> res_homeserver res = hs \<longrightarrow>
             (\<exists>opts. snd (commitContainers rt bp [res] errs tr)
                        = tr @ [EvContainerCommit (res_containerID res) opts]
                    \<and> co_Labels opts
                        = commitLabels (runner_AccessTokens rt tr bp (hs_Name hs)) hs))"
proof -
  let ?u = "senderUserID (hs_Name hs) a"
  have mem: "?u \<in> senderUserID (hs_Name hs) ` set (hs_ApplicationServices hs)"
    using assms by (rule imageI)
  have s: "map_of (labelsForApplicationServices hs) (''access_token_'' @ ?u) = Some fixedASToken"
    by (simp only: labelsForApplicationServices_sender senderCredentials_lookup mem if_True)
  have p1: "map_of (labelsForApplicationServices hs)
           (''access_token_@'' @ as_SenderLocalpart a @ '':'' @ hs_Name hs) = Some fixedASToken"
    using s by (simp add: senderUserID_def)
  have p2: "map_of (labelsForApplicationServices hs) (''application_service_'' @ as_ID a) \<noteq> None"
    using asRegistrations_member [OF assms]
    by (auto simp only: labelsForApplicationServices_registration)
  have p3: "map_of (tokensFromLabels ls) (''@'' @ as_SenderLocalpart a @ '':'' @ hs_Name hs)
               = Some fixedASToken \<and> tokensFromLabels ls \<noteq> []"
    if "distinct (map fst ls)" and "map_of ls = map_of (commitLabels tokens hs)"
    for tokens ls
  proof -
    have "map_of (tokensFromLabels ls) ?u = map_of (commitLabels tokens hs) (''access_token_'' @ ?u)"
      using that by (simp only: tokensFromLabels_lookup)
    also have "\<dots> = Some fixedASToken"
      by (simp only: commitLabels_lookup s option.case)
    finally have "map_of (tokensFromLabels ls) ?u = Some fixedASToken" .
    then show ?thesis by (auto simp: senderUserID_def)
  qed
  have p4: "\<exists>opts. snd (commitContainers rt bp [res] errs tr)
                        = tr @ [EvContainerCommit (res_containerID res) opts]
                    \<and> co_Labels opts
                        = commitLabels (runner_AccessTokens rt tr bp (hs_Name hs)) hs"
    if "res_err res = None" and "res_homeserver res = hs" for rt bp res errs tr
    using that by (simp add: Let_def split: sum.splits)
  show ?thesis using p1 p2 p3 p4 by blast
qed

text \<open>Claim C9: the example homeserver with no credentials from the runner.\<close>

theorem sender_credential_label_witness:
  "exampleAS \<in> set (hs_ApplicationServices exampleHS)
   \<and> distinct (map fst (commitLabels [] exampleHS))
   \<and> map_of (tokensFromLabels (commitLabels [] exampleHS)) ''@bot:hs1'' = Some fixedASToken
   \<and> tokensFromLabels (commitLabels [] exampleHS) \<noteq> []"
proof -
  have m: "exampleAS \<in> set (hs_ApplicationServices exampleHS)"
    by (simp add: exampleHS_def)
  have d: "distinct (map fst (commitLabels [] exampleHS))"
    by (simp add: commitLabels_def labelsForTokens_def
        labelsForApplicationServices_def asLabelStep_def exampleHS_def exampleAS_def Let_def)
  have "map_of (tokensFromLabels (commitLabels [] exampleHS))
          (''@'' @ as_SenderLocalpart exampleAS @ '':'' @ hs_Name exampleHS) = Some fixedASToken
        \<and> tokensFromLabels (commitLabels [] exampleHS) \<noteq> []"
    using sender_credential_label [OF m] d by blast
  then show ?thesis using m d by (simp add: exampleAS_def exampleHS_def)
qed

section \<open>Properties of network provisioning\<close>

text \<open>
  Claim C5. \<open>CreateNetwork\<close> never returns a nil error with an empty identifier. When the
  runtime answers with a non-empty identifier the call succeeds with it, with or without
  a warning; when it answers with an empty identifier the call returns an error, with or
  without a warning; when the runtime fails the call returns an error.
\<close>

theorem CreateNetwork_identifier:
  "(snd (fst (CreateNetwork rt bp tr)) = None \<longrightarrow> fst (fst (CreateNetwork rt bp tr)) \<noteq> [])
   \<and> (\<forall>nwID warning.
        Docker_NetworkCreate rt tr (''complement_'' @ bp)
          [(complementLabel, bp), (''complement_blueprint'', bp)] = Inr (nwID, warning) \<longrightarrow>
          (nwID \<noteq> [] \<longrightarrow> fst (CreateNetwork rt bp tr) = (nwID, None))
        \<and> (nwID = [] \<longrightarrow> fst (fst (CreateNetwork rt bp tr)) = []
                          \<and> snd (fst (CreateNetwork rt bp tr)) \<noteq> None))
   \<and> (\<forall>e. Docker_NetworkCreate rt tr (''complement_'' @ bp)
          [(complementLabel, bp), (''complement_blueprint'', bp)] = Inl e \<longrightarrow>
          fst (fst (CreateNetwork rt bp tr)) = [] \<and> snd (fst (CreateNetwork rt bp tr)) \<noteq> None)"
  by (auto simp: CreateNetwork_def Let_def split: sum.splits prod.splits)

text \<open>Claim C5: a warning with an identifier succeeds, a warning without one fails.\<close>

theorem CreateNetwork_identifier_witness:
  "Docker_NetworkCreate (calmWorld\<lparr>Docker_NetworkCreate := \<lambda>tr n l. Inr (''n1'', ''deprecated'')\<rparr>)
      [] (''complement_'' @ ''bp1'') [(complementLabel, ''bp1''), (''complement_blueprint'', ''bp1'')]
     = Inr (''n1'', ''deprecated'')
   \<and> fst (CreateNetwork (calmWorld\<lparr>Docker_NetworkCreate := \<lambda>tr n l. Inr (''n1'', ''deprecated'')\<rparr>)
            ''bp1'' []) = (''n1'', None)
   \<and> Docker_NetworkCreate (calmWorld\<lparr>Docker_NetworkCreate := \<lambda>tr n l. Inr ([], ''no space'')\<rparr>)
      [] (''complement_'' @ ''bp1'') [(complementLabel, ''bp1''), (''complement_blueprint'', ''bp1'')]
     = Inr ([], ''no space'')
   \<and> snd (fst (CreateNetwork (calmWorld\<lparr>Docker_NetworkCreate := \<lambda>tr n l. Inr ([], ''no space'')\<rparr>)
            ''bp1'' [])) \<noteq> None"
proof -
  let ?w1 = "calmWorld\<lparr>Docker_NetworkCreate := \<lambda>tr n l. Inr (''n1'', ''deprecated'')\<rparr>"
  let ?w2 = "calmWorld\<lparr>Docker_NetworkCreate := \<lambda>tr n l. Inr ([], ''no space'')\<rparr>"
  have h1: "Docker_NetworkCreate ?w1 [] (''complement_'' @ ''bp1'')
              [(complementLabel, ''bp1''), (''complement_blueprint'', ''bp1'')]
            = Inr (''n1'', ''deprecated'')" by simp
  have h2: "Docker_NetworkCreate ?w2 [] (''complement_'' @ ''bp1'')
              [(complementLabel, ''bp1''), (''complement_blueprint'', ''bp1'')]
            = Inr ([], ''no space'')" by simp
  have n: "''n1'' \<noteq> []" by simp
  from CreateNetwork_identifier [of ?w1 "''bp1''" "[]"] h1 n
  have c1: "fst (CreateNetwork ?w1 ''bp1'' []) = (''n1'', None)" by blast
  from CreateNetwork_identifier [of ?w2 "''bp1''" "[]"] h2
  have c2: "snd (fst (CreateNetwork ?w2 ''bp1'' [])) \<noteq> None" by blast
  show ?thesis using h1 h2 c1 c2 by blast
qed

section \<open>Properties of cleanup\<close>

lemma removeContainersLoop_attemptAll:
  "removeContainersLoop rt cs tr
   = attemptAll (Docker_ContainerRemove rt) (\<lambda>c. EvContainerRemove c True) cs tr"
  by (induction cs arbitrary: tr) (auto split: option.splits)

lemma removeNetworksLoop_attemptAll:
  "removeNetworksLoop rt ns tr = attemptAll (Docker_NetworkRemove rt) EvNetworkRemove ns tr"
  by (induction ns arbitrary: tr) (auto split: option.splits)

lemma removeImagesLoop_attemptAll:
  "removeImagesLoop rt keeps images tr
   = attemptAll (Docker_ImageRemove rt) (\<lambda>i. EvImageRemove i True)
       (map img_ID (notKept keeps images)) tr"
  by (induction images arbitrary: tr) (auto simp: notKept_def Let_def split: option.splits)

lemma keepBlueprint_iff: "keepBlueprint b keeps \<longleftrightarrow> b \<in> set keeps"
  by (induction keeps) auto

lemma attemptAll_abort:
  assumes "\<forall>i<length xs. remove (tr @ map ev (take i xs)) (xs ! i) = None"
    and "remove (tr @ map ev xs) c = Some e"
  shows "attemptAll remove ev (xs @ c # ys) tr = (Some e, tr @ map ev (xs @ [c]))"
  using assms
proof (induction xs arbitrary: tr)
  case Nil
  then show ?case by simp
next
  case (Cons x xs)
  from Cons.prems(1) have x: "remove tr x = None" by force
  have rest: "\<forall>i<length xs. remove ((tr @ [ev x]) @ map ev (take i xs)) (xs ! i) = None"
  proof (intro allI impI)
    fix i assume "i < length xs"
    then have "Suc i < length (x # xs)" by simp
    from Cons.prems(1) [rule_format, OF this] show
      "remove ((tr @ [ev x]) @ map ev (take i xs)) (xs ! i) = None" by simp
  qed
  have last: "remove ((tr @ [ev x]) @ map ev xs) c = Some e"
    using Cons.prems(2) by simp
  show ?case
    using Cons.IH [OF rest last] x by simp
qed

lemma attemptAll_prefix:
  "\<exists>k\<le>length ids.
      snd (attemptAll remove ev ids tr) = tr @ map ev (take k ids)
    \<and> (fst (attemptAll remove ev ids tr) = None \<longrightarrow> k = length ids)
    \<and> (k = length ids
        \<or> (0 < k \<and> remove (tr @ map ev (take (k - 1) ids)) (ids ! (k - 1)) \<noteq> None))"
proof (induction ids arbitrary: tr)
  case Nil
  then show ?case by simp
next
  case (Cons x ids)
  show ?case
  proof (cases "remove tr x")
    case (Some err)
    then have "1 \<le> length (x # ids)
        \<and> snd (attemptAll remove ev (x # ids) tr) = tr @ map ev (take 1 (x # ids))
        \<and> (fst (attemptAll remove ev (x # ids) tr) = None \<longrightarrow> 1 = length (x # ids))
        \<and> (1 = length (x # ids) \<or>
            (0 < (1::nat) \<and> remove (tr @ map ev (take (1 - 1) (x # ids))) ((x # ids) ! (1 - 1)) \<noteq> None))"
      by simp
    then show ?thesis by (rule exI)
  next
    case None
    from Cons.IH [of "tr @ [ev x]"] obtain k where kk: "k \<le> length ids
      \<and> snd (attemptAll remove ev ids (tr @ [ev x])) = (tr @ [ev x]) @ map ev (take k ids)
      \<and> (fst (attemptAll remove ev ids (tr @ [ev x])) = None \<longrightarrow> k = length ids)
      \<and> (k = length ids
        \<or> (0 < k \<and> remove ((tr @ [ev x]) @ map ev (take (k - 1) ids)) (ids ! (k - 1)) \<noteq> None))"
      ..
    note k = kk [THEN conjunct1] kk [THEN conjunct2, THEN conjunct1]
      kk [THEN conjunct2, THEN conjunct2, THEN conjunct1]
      kk [THEN conjunct2, THEN conjunct2, THEN conjunct2]
    have 1: "Suc k \<le> length (x # ids)" using k(1) by simp
    have 2: "snd (attemptAll remove ev (x # ids) tr) = tr @ map ev (take (Suc k) (x # ids))"
      using k(2) None by simp
    have 3: "fst (attemptAll remove ev (x # ids) tr) = None \<longrightarrow> Suc k = length (x # ids)"
      using k(3) None by simp
    have 4: "Suc k = length (x # ids)
        \<or> (0 < Suc k \<and> remove (tr @ map ev (take (Suc k - 1) (x # ids))) ((x # ids) ! (Suc k - 1)) \<noteq> None)"
    proof (cases "k = length ids")
      case True
      then show ?thesis by simp
    next
      case False
      with k(4) have pos: "0 < k"
        and f: "remove ((tr @ [ev x]) @ map ev (take (k - 1) ids)) (ids ! (k - 1)) \<noteq> None"
        by auto
      from pos obtain j where j: "k = Suc j" by (cases k) auto
      show ?thesis using f j by simp
    qed
    have "Suc k \<le> length (x # ids)
        \<and> snd (attemptAll remove ev (x # ids) tr) = tr @ map ev (take (Suc k) (x # ids))
        \<and> (fst (attemptAll remove ev (x # ids) tr) = None \<longrightarrow> Suc k = length (x # ids))
        \<and> (Suc k = length (x # ids)
        \<or> (0 < Suc k \<and> remove (tr @ map ev (take (Suc k - 1) (x # ids))) ((x # ids) ! (Suc k - 1)) \<noteq> None))"
      by (rule conjI 1 2 3 4)+
    then show ?thesis by (rule exI)
  qed
qed

lemma attemptAll_events:
  "\<exists>t. snd (attemptAll remove ev ids tr) = tr @ t \<and> set t \<subseteq> ev ` set ids"
proof -
  from attemptAll_prefix [of ids remove ev tr] obtain k where
    "snd (attemptAll remove ev ids tr) = tr @ map ev (take k ids)" by blast
  moreover have "set (map ev (take k ids)) \<subseteq> ev ` set ids"
    by (auto dest: in_set_takeD)
  ultimately show ?thesis by blast
qed

lemma removeContainers_shape:
  "\<exists>t. snd (removeContainers rt tr) = tr @ EvContainerList True complementLabel # t
       \<and> (\<forall>e\<in>set t. \<exists>c. e = EvContainerRemove c True)"
proof (cases "Docker_ContainerList rt tr complementLabel")
  case (Inl err)
  then show ?thesis by (simp add: removeContainers_def)
next
  case (Inr cs)
  from attemptAll_events [of "Docker_ContainerRemove rt" "\<lambda>c. EvContainerRemove c True" cs
      "tr @ [EvContainerList True complementLabel]"]
  obtain t where "snd (attemptAll (Docker_ContainerRemove rt) (\<lambda>c. EvContainerRemove c True) cs
      (tr @ [EvContainerList True complementLabel])) = (tr @ [EvContainerList True complementLabel]) @ t"
    and "set t \<subseteq> (\<lambda>c. EvContainerRemove c True) ` set cs" by blast
  then have "snd (removeContainers rt tr) = tr @ EvContainerList True complementLabel # t
       \<and> (\<forall>e\<in>set t. \<exists>c. e = EvContainerRemove c True)"
    using Inr by (auto simp: removeContainers_def removeContainersLoop_attemptAll)
  then show ?thesis by (rule exI)
qed

lemma removeImages_shape:
  "\<exists>t. snd (removeImages rt d tr) = tr @ EvImageList complementLabel # t
       \<and> (\<forall>e\<in>set t. \<exists>i. e = EvImageRemove i True)"
proof (cases "Docker_ImageList rt tr complementLabel")
  case (Inl err)
  then show ?thesis by (simp add: removeImages_def)
next
  case (Inr imgs)
  from attemptAll_events [of "Docker_ImageRemove rt" "\<lambda>i. EvImageRemove i True"
      "map img_ID (notKept (KeepBlueprints d) imgs)" "tr @ [EvImageList complementLabel]"]
  obtain t where "snd (attemptAll (Docker_ImageRemove rt) (\<lambda>i. EvImageRemove i True)
      (map img_ID (notKept (KeepBlueprints d) imgs))
      (tr @ [EvImageList complementLabel])) = (tr @ [EvImageList complementLabel]) @ t"
    and "set t \<subseteq> (\<lambda>i. EvImageRemove i True) ` set (map img_ID (notKept (KeepBlueprints d) imgs))"
    by blast
  then have "snd (removeImages rt d tr) = tr @ EvImageList complementLabel # t
       \<and> (\<forall>e\<in>set t. \<exists>i. e = EvImageRemove i True)"
    using Inr by (auto simp: removeImages_def removeImagesLoop_attemptAll)
  then show ?thesis by (rule exI)
qed

lemma removeNetworks_shape:
  "\<exists>t. snd (removeNetworks rt tr) = tr @ EvNetworkList complementLabel # t
       \<and> (\<forall>e\<in>set t. \<exists>n. e = EvNetworkRemove n)"
proof (cases "Docker_NetworkList rt tr complementLabel")
  case (Inl err)
  then show ?thesis by (simp add: removeNetworks_def)
next
  case (Inr ns)
  from attemptAll_events [of "Docker_NetworkRemove rt" EvNetworkRemove ns
      "tr @ [EvNetworkList complementLabel]"]
  obtain t where "snd (attemptAll (Docker_NetworkRemove rt) EvNetworkRemove ns
      (tr @ [EvNetworkList complementLabel])) = (tr @ [EvNetworkList complementLabel]) @ t"
    and "set t \<subseteq> EvNetworkRemove ` set ns" by blast
  then have "snd (removeNetworks rt tr) = tr @ EvNetworkList complementLabel # t
       \<and> (\<forall>e\<in>set t. \<exists>n. e = EvNetworkRemove n)"
    using Inr by (auto simp: removeNetworks_def removeNetworksLoop_attemptAll)
  then show ?thesis by (rule exI)
qed

lemma Cleanup_passes:
  "Cleanup rt d tr
   = snd (removeNetworks rt (snd (removeImages rt d (snd (removeContainers rt tr)))))"
  by (simp add: Cleanup_def split: prod.splits)

lemma removeContainers_abort:
  assumes "Docker_ContainerList rt tr complementLabel = Inr (xs @ c # ys)"
    and "\<forall>i<length xs. Docker_ContainerRemove rt
           (tr @ EvContainerList True complementLabel
               # map (\<lambda>c. EvContainerRemove c True) (take i xs)) (xs ! i) = None"
    and "Docker_ContainerRemove rt
           (tr @ EvContainerList True complementLabel # map (\<lambda>c. EvContainerRemove c True) xs) c
         = Some e"
  shows "removeContainers rt tr
         = (Some e, tr @ EvContainerList True complementLabel
                       # map (\<lambda>c. EvContainerRemove c True) (xs @ [c]))"
proof -
  have "attemptAll (Docker_ContainerRemove rt) (\<lambda>c. EvContainerRemove c True) (xs @ c # ys)
          (tr @ [EvContainerList True complementLabel])
        = (Some e, (tr @ [EvContainerList True complementLabel])
                     @ map (\<lambda>c. EvContainerRemove c True) (xs @ [c]))"
    using assms(2,3) by (intro attemptAll_abort) simp_all
  then show ?thesis
    using assms(1) by (simp add: removeContainers_def removeContainersLoop_attemptAll)
qed

lemma removeNetworks_abort:
  assumes "Docker_NetworkList rt tr complementLabel = Inr (xs @ c # ys)"
    and "\<forall>i<length xs. Docker_NetworkRemove rt
           (tr @ EvNetworkList complementLabel # map EvNetworkRemove (take i xs)) (xs ! i) = None"
    and "Docker_NetworkRemove rt
           (tr @ EvNetworkList complementLabel # map EvNetworkRemove xs) c = Some e"
  shows "removeNetworks rt tr
         = (Some e, tr @ EvNetworkList complementLabel # map EvNetworkRemove (xs @ [c]))"
proof -
  have "attemptAll (Docker_NetworkRemove rt) EvNetworkRemove (xs @ c # ys)
          (tr @ [EvNetworkList complementLabel])
        = (Some e, (tr @ [EvNetworkList complementLabel]) @ map EvNetworkRemove (xs @ [c]))"
    using assms(2,3) by (intro attemptAll_abort) simp_all
  then show ?thesis
    using assms(1) by (simp add: removeNetworks_def removeNetworksLoop_attemptAll)
qed

lemma removeImages_abort:
  assumes "Docker_ImageList rt tr complementLabel = Inr (xs @ c # ys)"
    and "\<not> keepBlueprint (lookup (img_Labels c) ''complement_blueprint'') (KeepBlueprints d)"
    and "\<forall>i<length (notKept (KeepBlueprints d) xs). Docker_ImageRemove rt
           (tr @ EvImageList complementLabel
               # map (\<lambda>i. EvImageRemove i True)
                   (take i (map img_ID (notKept (KeepBlueprints d) xs))))
           (map img_ID (notKept (KeepBlueprints d) xs) ! i) = None"
    and "Docker_ImageRemove rt
           (tr @ EvImageList complementLabel
               # map (\<lambda>i. EvImageRemove i True) (map img_ID (notKept (KeepBlueprints d) xs)))
           (img_ID c) = Some e"
  shows "removeImages rt d tr
         = (Some e, tr @ EvImageList complementLabel
                       # map (\<lambda>i. EvImageRemove i True)
                           (map img_ID (notKept (KeepBlueprints d) xs) @ [img_ID c]))"
proof -
  let ?att = "map img_ID (notKept (KeepBlueprints d) xs)"
  have split: "map img_ID (notKept (KeepBlueprints d) (xs @ c # ys))
               = ?att @ img_ID c # map img_ID (notKept (KeepBlueprints d) ys)"
    using assms(2) by (simp add: notKept_def)
  have "attemptAll (Docker_ImageRemove rt) (\<lambda>i. EvImageRemove i True)
          (?att @ img_ID c # map img_ID (notKept (KeepBlueprints d) ys))
          (tr @ [EvImageList complementLabel])
        = (Some e, (tr @ [EvImageList complementLabel])
                     @ map (\<lambda>i. EvImageRemove i True) (?att @ [img_ID c]))"
    using assms(3,4) by (intro attemptAll_abort) simp_all
  then show ?thesis
    using assms(1) split by (simp add: removeImages_def removeImagesLoop_attemptAll)
qed

lemma cleanup_containers_abort:
  assumes "Docker_ContainerList rt tr complementLabel = Inr (xs @ c # ys)"
    and "\<forall>i<length xs. Docker_ContainerRemove rt
           (tr @ EvContainerList True complementLabel
               # map (\<lambda>c. EvContainerRemove c True) (take i xs)) (xs ! i) = None"
    and "Docker_ContainerRemove rt
           (tr @ EvContainerList True complementLabel # map (\<lambda>c. EvContainerRemove c True) xs) c
         = Some e"
  shows "removeContainers rt tr
         = (Some e, tr @ EvContainerList True complementLabel
                       # map (\<lambda>c. EvContainerRemove c True) (xs @ [c]))
       \<and> (\<exists>rest. Cleanup rt d tr
                  = tr @ EvContainerList True complementLabel
                       # map (\<lambda>c. EvContainerRemove c True) (xs @ [c])
                       @ EvImageList complementLabel # rest
                \<and> (\<forall>c'. EvContainerRemove c' True \<notin> set rest))"
proof -
  let ?T = "tr @ EvContainerList True complementLabel
              # map (\<lambda>c. EvContainerRemove c True) (xs @ [c])"
  have a: "removeContainers rt tr = (Some e, ?T)"
    using assms by (rule removeContainers_abort)
  from removeImages_shape [of rt d ?T] obtain t where
    t: "snd (removeImages rt d ?T) = ?T @ EvImageList complementLabel # t"
    and te: "\<forall>e\<in>set t. \<exists>i. e = EvImageRemove i True" by blast
  from removeNetworks_shape [of rt "?T @ EvImageList complementLabel # t"] obtain t' where
    t': "snd (removeNetworks rt (?T @ EvImageList complementLabel # t))
         = (?T @ EvImageList complementLabel # t) @ EvNetworkList complementLabel # t'"
    and te': "\<forall>e\<in>set t'. \<exists>n. e = EvNetworkRemove n" by blast
  have c: "Cleanup rt d tr = tr @ EvContainerList True complementLabel
                       # map (\<lambda>c. EvContainerRemove c True) (xs @ [c])
                       @ EvImageList complementLabel # (t @ EvNetworkList complementLabel # t')"
    unfolding Cleanup_passes a snd_conv t t' by simp
  have "\<forall>c'. EvContainerRemove c' True \<notin> set (t @ EvNetworkList complementLabel # t')"
    using te te' by auto
  with a c show ?thesis by blast
qed

lemma cleanup_images_abort:
  assumes "Docker_ImageList rt (snd (removeContainers rt tr)) complementLabel = Inr (xs @ c # ys)"
    and "\<not> keepBlueprint (lookup (img_Labels c) ''complement_blueprint'') (KeepBlueprints d)"
    and "\<forall>i<length (notKept (KeepBlueprints d) xs). Docker_ImageRemove rt
           (snd (removeContainers rt tr) @ EvImageList complementLabel
               # map (\<lambda>i. EvImageRemove i True)
                   (take i (map img_ID (notKept (KeepBlueprints d) xs))))
           (map img_ID (notKept (KeepBlueprints d) xs) ! i) = None"
    and "Docker_ImageRemove rt
           (snd (removeContainers rt tr) @ EvImageList complementLabel
               # map (\<lambda>i. EvImageRemove i True) (map img_ID (notKept (KeepBlueprints d) xs)))
           (img_ID c) = Some e"
  shows "removeImages rt d (snd (removeContainers rt tr))
         = (Some e, snd (removeContainers rt tr) @ EvImageList complementLabel
                       # map (\<lambda>i. EvImageRemove i True)
                           (map img_ID (notKept (KeepBlueprints d) xs) @ [img_ID c]))
       \<and> (\<exists>rest. Cleanup rt d tr
                  = snd (removeContainers rt tr) @ EvImageList complementLabel
                       # map (\<lambda>i. EvImageRemove i True)
                           (map img_ID (notKept (KeepBlueprints d) xs) @ [img_ID c])
                       @ EvNetworkList complementLabel # rest
                \<and> (\<forall>i. EvImageRemove i True \<notin> set rest))"
proof -
  let ?T = "snd (removeContainers rt tr) @ EvImageList complementLabel
                       # map (\<lambda>i. EvImageRemove i True)
                           (map img_ID (notKept (KeepBlueprints d) xs) @ [img_ID c])"
  have a: "removeImages rt d (snd (removeContainers rt tr)) = (Some e, ?T)"
    using assms by (rule removeImages_abort)
  from removeNetworks_shape [of rt ?T] obtain t' where
    t': "snd (removeNetworks rt ?T) = ?T @ EvNetworkList complementLabel # t'"
    and te': "\<forall>e\<in>set t'. \<exists>n. e = EvNetworkRemove n" by blast
  have c: "Cleanup rt d tr = snd (removeContainers rt tr) @ EvImageList complementLabel
                       # map (\<lambda>i. EvImageRemove i True)
                           (map img_ID (notKept (KeepBlueprints d) xs) @ [img_ID c])
                       @ EvNetworkList complementLabel # t'"
    unfolding Cleanup_passes a snd_conv t' by simp
  have "\<forall>i. EvImageRemove i True \<notin> set t'"
    using te' by auto
  with a c show ?thesis by blast
qed

lemma cleanup_networks_abort:
  assumes "Docker_NetworkList rt (snd (removeImages rt d (snd (removeContainers rt tr))))
             complementLabel = Inr (xs @ c # ys)"
    and "\<forall>i<length xs. Docker_NetworkRemove rt
           (snd (removeImages rt d (snd (removeContainers rt tr)))
              @ EvNetworkList complementLabel # map EvNetworkRemove (take i xs)) (xs ! i) = None"
    and "Docker_NetworkRemove rt
           (snd (removeImages rt d (snd (removeContainers rt tr)))
              @ EvNetworkList complementLabel # map EvNetworkRemove xs) c = Some e"
  shows "removeNetworks rt (snd (removeImages rt d (snd (removeContainers rt tr))))
         = (Some e, snd (removeImages rt d (snd (removeContainers rt tr)))
                      @ EvNetworkList complementLabel # map EvNetworkRemove (xs @ [c]))
       \<and> Cleanup rt d tr
         = snd (removeImages rt d (snd (removeContainers rt tr)))
             @ EvNetworkList complementLabel # map EvNetworkRemove (xs @ [c])"
proof -
  have a: "removeNetworks rt (snd (removeImages rt d (snd (removeContainers rt tr))))
         = (Some e, snd (removeImages rt d (snd (removeContainers rt tr)))
                      @ EvNetworkList complementLabel # map EvNetworkRemove (xs @ [c]))"
    using assms by (rule removeNetworks_abort)
  show ?thesis unfolding Cleanup_passes a by simp
qed

text \<open>
  Claim C10. In each of the three passes of \<open>Cleanup\<close>, when the listing is \<open>xs @ c # ys\<close>,
  the removals of \<open>xs\<close> (for images: of those in \<open>xs\<close> that are not kept) succeed and the
  removal of \<open>c\<close> fails, the pass returns that error after having attempted exactly the
  removals up to \<open>c\<close>: nothing of \<open>ys\<close> is attempted. \<open>Cleanup\<close> nevertheless goes on: after
  the container pass the image listing is requested next, after the image pass the
  network listing, and no removal of the aborted kind follows; the network pass is the
  last, so \<open>Cleanup\<close> ends with its failing removal.
\<close>

theorem cleanup_pass_aborts_at_first_failure:
  "(\<forall>xs c ys e.
       Docker_ContainerList rt tr complementLabel = Inr (xs @ c # ys)
     \<and> (\<forall>i<length xs. Docker_ContainerRemove rt
           (tr @ EvContainerList True complementLabel
               # map (\<lambda>c. EvContainerRemove c True) (take i xs)) (xs ! i) = None)
     \<and> Docker_ContainerRemove rt
           (tr @ EvContainerList True complementLabel # map (\<lambda>c. EvContainerRemove c True) xs) c
         = Some e
     \<longrightarrow> removeContainers rt tr
         = (Some e, tr @ EvContainerList True complementLabel
                       # map (\<lambda>c. EvContainerRemove c True) (xs @ [c]))
       \<and> (\<exists>rest. Cleanup rt d tr
                  = tr @ EvContainerList True complementLabel
                       # map (\<lambda>c. EvContainerRemove c True) (xs @ [c])
                       @ EvImageList complementLabel # rest
                \<and> (\<forall>c'. EvContainerRemove c' True \<notin> set rest)))
 \<and> (\<forall>xs c ys e.
       Docker_ImageList rt (snd (removeContainers rt tr)) complementLabel = Inr (xs @ c # ys)
     \<and> \<not> keepBlueprint (lookup (img_Labels c) ''complement_blueprint'') (KeepBlueprints d)
     \<and> (\<forall>i<length (notKept (KeepBlueprints d) xs). Docker_ImageRemove rt
           (snd (removeContainers rt tr) @ EvImageList complementLabel
               # map (\<lambda>i. EvImageRemove i True)
                   (take i (map img_ID (notKept (KeepBlueprints d) xs))))
           (map img_ID (notKept (KeepBlueprints d) xs) ! i) = None)
     \<and> Docker_ImageRemove rt
           (snd (removeContainers rt tr) @ EvImageList complementLabel
               # map (\<lambda>i. EvImageRemove i True) (map img_ID (notKept (KeepBlueprints d) xs)))
           (img_ID c) = Some e
     \<longrightarrow> removeImages rt d (snd (removeContainers rt tr))
         = (Some e, snd (removeContainers rt tr) @ EvImageList complementLabel
                       # map (\<lambda>i. EvImageRemove i True)
                           (map img_ID (notKept (KeepBlueprints d) xs) @ [img_ID c]))
       \<and> (\<exists>rest. Cleanup rt d tr
                  = snd (removeContainers rt tr) @ EvImageList complementLabel
                       # map (\<lambda>i. EvImageRemove i True)
                           (map img_ID (notKept (KeepBlueprints d) xs) @ [img_ID c])
                       @ EvNetworkList complementLabel # rest
                \<and> (\<forall>i. EvImageRemove i True \<notin> set rest)))
 \<and> (\<forall>xs c ys e.
       Docker_NetworkList rt (snd (removeImages rt d (snd (removeContainers rt tr))))
             complementLabel = Inr (xs @ c # ys)
     \<and> (\<forall>i<length xs. Docker_NetworkRemove rt
           (snd (removeImages rt d (snd (removeContainers rt tr)))
              @ EvNetworkList complementLabel # map EvNetworkRemove (take i xs)) (xs ! i) = None)
     \<and> Docker_NetworkRemove rt
           (snd (removeImages rt d (snd (removeContainers rt tr)))
              @ EvNetworkList complementLabel # map EvNetworkRemove xs) c = Some e
     \<longrightarrow> removeNetworks rt (snd (removeImages rt d (snd (removeContainers rt tr))))
         = (Some e, snd (removeImages rt d (snd (removeContainers rt tr)))
                      @ EvNetworkList complementLabel # map EvNetworkRemove (xs @ [c]))
       \<and> Cleanup rt d tr
         = snd (removeImages rt d (snd (removeContainers rt tr)))
             @ EvNetworkList complementLabel # map EvNetworkRemove (xs @ [c]))"
proof (intro conjI allI impI)
  fix xs c ys e
  assume h: "Docker_ContainerList rt tr complementLabel = Inr (xs @ c # ys)
     \<and> (\<forall>i<length xs. Docker_ContainerRemove rt
           (tr @ EvContainerList True complementLabel
               # map (\<lambda>c. EvContainerRemove c True) (take i xs)) (xs ! i) = None)
     \<and> Docker_ContainerRemove rt
           (tr @ EvContainerList True complementLabel # map (\<lambda>c. EvContainerRemove c True) xs) c
         = Some e"
  note r = cleanup_containers_abort [OF h [THEN conjunct1] h [THEN conjunct2, THEN conjunct1]
      h [THEN conjunct2, THEN conjunct2], of d]
  show "removeContainers rt tr
         = (Some e, tr @ EvContainerList True complementLabel
                       # map (\<lambda>c. EvContainerRemove c True) (xs @ [c]))"
    using r by (rule conjunct1)
  show "\<exists>rest. Cleanup rt d tr
                  = tr @ EvContainerList True complementLabel
                       # map (\<lambda>c. EvContainerRemove c True) (xs @ [c])
                       @ EvImageList complementLabel # rest
                \<and> (\<forall>c'. EvContainerRemove c' True \<notin> set rest)"
    using r by (rule conjunct2)
next
  fix xs c ys e
  assume h: "Docker_ImageList rt (snd (removeContainers rt tr)) complementLabel = Inr (xs @ c # ys)
     \<and> \<not> keepBlueprint (lookup (img_Labels c) ''complement_blueprint'') (KeepBlueprints d)
     \<and> (\<forall>i<length (notKept (KeepBlueprints d) xs). Docker_ImageRemove rt
           (snd (removeContainers rt tr) @ EvImageList complementLabel
               # map (\<lambda>i. EvImageRemove i True)
                   (take i (map img_ID (notKept (KeepBlueprints d) xs))))
           (map img_ID (notKept (KeepBlueprints d) xs) ! i) = None)
     \<and> Docker_ImageRemove rt
           (snd (removeContainers rt tr) @ EvImageList complementLabel
               # map (\<lambda>i. EvImageRemove i True) (map img_ID (notKept (KeepBlueprints d) xs)))
           (img_ID c) = Some e"
  note r = cleanup_images_abort [OF h [THEN conjunct1] h [THEN conjunct2, THEN conjunct1]
      h [THEN conjunct2, THEN conjunct2, THEN conjunct1]
      h [THEN conjunct2, THEN conjunct2, THEN conjunct2]]
  show "removeImages rt d (snd (removeContainers rt tr))
         = (Some e, snd (removeContainers rt tr) @ EvImageList complementLabel
                       # map (\<lambda>i. EvImageRemove i True)
                           (map img_ID (notKept (KeepBlueprints d) xs) @ [img_ID c]))"
    using r by (rule conjunct1)
  show "\<exists>rest. Cleanup rt d tr
                  = snd (removeContainers rt tr) @ EvImageList complementLabel
                       # map (\<lambda>i. EvImageRemove i True)
                           (map img_ID (notKept (KeepBlueprints d) xs) @ [img_ID c])
                       @ EvNetworkList complementLabel # rest
                \<and> (\<forall>i. EvImageRemove i True \<notin> set rest)"
    using r by (rule conjunct2)
next
  fix xs c ys e
  assume h: "Docker_NetworkList rt (snd (removeImages rt d (snd (removeContainers rt tr))))
             complementLabel = Inr (xs @ c # ys)
     \<and> (\<forall>i<length xs. Docker_NetworkRemove rt
           (snd (removeImages rt d (snd (removeContainers rt tr)))
              @ EvNetworkList complementLabel # map EvNetworkRemove (take i xs)) (xs ! i) = None)
     \<and> Docker_NetworkRemove rt
           (snd (removeImages rt d (snd (removeContainers rt tr)))
              @ EvNetworkList complementLabel # map EvNetworkRemove xs) c = Some e"
  note r = cleanup_networks_abort [OF h [THEN conjunct1] h [THEN conjunct2, THEN conjunct1]
      h [THEN conjunct2, THEN conjunct2]]
  show "removeNetworks rt (snd (removeImages rt d (snd (removeContainers rt tr))))
         = (Some e, snd (removeImages rt d (snd (removeContainers rt tr)))
                      @ EvNetworkList complementLabel # map EvNetworkRemove (xs @ [c]))"
    using r by (rule conjunct1)
  show "Cleanup rt d tr
         = snd (removeImages rt d (snd (removeContainers rt tr)))
             @ EvNetworkList complementLabel # map EvNetworkRemove (xs @ [c])"
    using r by (rule conjunct2)
qed

text \<open>Claim C10: a runtime that refuses the second container, the third image and the
  second network.\<close>

theorem cleanup_pass_aborts_at_first_failure_witness:
  "Docker_ContainerList refusingWorld [] complementLabel = Inr ([''c1''] @ ''c2'' # [''c3''])
   \<and> Docker_ContainerRemove refusingWorld
         ([] @ EvContainerList True complementLabel
             # map (\<lambda>c. EvContainerRemove c True) [''c1'']) ''c2''
       = Some (Error ''container in use'')
   \<and> removeContainers refusingWorld []
       = (Some (Error ''container in use''),
          [EvContainerList True complementLabel, EvContainerRemove ''c1'' True,
           EvContainerRemove ''c2'' True])
   \<and> removeImages refusingWorld exampleBuilder (snd (removeContainers refusingWorld []))
       = (Some (Error ''image in use''),
          [EvContainerList True complementLabel, EvContainerRemove ''c1'' True,
           EvContainerRemove ''c2'' True,
           EvImageList complementLabel, EvImageRemove ''i2'' True, EvImageRemove ''i3'' True])
   \<and> Cleanup refusingWorld exampleBuilder []
       = [EvContainerList True complementLabel, EvContainerRemove ''c1'' True,
          EvContainerRemove ''c2'' True,
          EvImageList complementLabel, EvImageRemove ''i2'' True, EvImageRemove ''i3'' True,
          EvNetworkList complementLabel, EvNetworkRemove ''n1'', EvNetworkRemove ''n2'']"
proof -
  note defs = refusingWorld_def listingWorld_def calmWorld_def exampleBuilder_def
    exampleImages_def
  note T = cleanup_pass_aborts_at_first_failure [of refusingWorld "[]" exampleBuilder]
  have l1: "Docker_ContainerList refusingWorld [] complementLabel = Inr ([''c1''] @ ''c2'' # [''c3''])"
    by (simp add: defs)
  have f1: "Docker_ContainerRemove refusingWorld
         ([] @ EvContainerList True complementLabel
             # map (\<lambda>c. EvContainerRemove c True) [''c1'']) ''c2''
       = Some (Error ''container in use'')"
    by (simp add: defs)
  have s1: "\<forall>i<length [''c1'']. Docker_ContainerRemove refusingWorld
           ([] @ EvContainerList True complementLabel
               # map (\<lambda>c. EvContainerRemove c True) (take i [''c1''])) ([''c1''] ! i) = None"
    by (simp add: defs)
  from T [THEN conjunct1, rule_format, of "[''c1'']" "''c2''" "[''c3'']" "Error ''container in use''"]
    l1 s1 f1
  have rc: "removeContainers refusingWorld []
       = (Some (Error ''container in use''),
          [EvContainerList True complementLabel, EvContainerRemove ''c1'' True,
           EvContainerRemove ''c2'' True])"
    by simp
  let ?xs = "[\<lparr>img_ID = ''i1'', img_Labels = [(''complement_context'', ''bp1.hs1''),
                                       (''complement_blueprint'', ''bp1'')]\<rparr>,
      \<lparr>img_ID = ''i2'', img_Labels = [(''complement_context'', ''bp2.hs1''),
                                       (''complement_blueprint'', ''bp2'')]\<rparr>]"
  let ?c = "\<lparr>img_ID = ''i3'', img_Labels = [(''complement_context'', ''bp3.hs1''),
                                       (''complement_blueprint'', ''bp3'')]\<rparr>"
  let ?ys = "[\<lparr>img_ID = ''i4'', img_Labels = [(''complement_context'', ''bp4.hs1'')]\<rparr>]"
  have nk: "notKept (KeepBlueprints exampleBuilder) ?xs
            = [\<lparr>img_ID = ''i2'', img_Labels = [(''complement_context'', ''bp2.hs1''),
                                       (''complement_blueprint'', ''bp2'')]\<rparr>]"
    by (simp add: notKept_def lookup_def exampleBuilder_def)
  have l2: "Docker_ImageList refusingWorld (snd (removeContainers refusingWorld [])) complementLabel
            = Inr (?xs @ ?c # ?ys)"
    by (simp add: defs)
  have k2: "\<not> keepBlueprint (lookup (img_Labels ?c) ''complement_blueprint'')
              (KeepBlueprints exampleBuilder)"
    by (simp add: lookup_def exampleBuilder_def)
  have s2: "\<forall>i<length (notKept (KeepBlueprints exampleBuilder) ?xs).
           Docker_ImageRemove refusingWorld
           (snd (removeContainers refusingWorld []) @ EvImageList complementLabel
               # map (\<lambda>i. EvImageRemove i True)
                   (take i (map img_ID (notKept (KeepBlueprints exampleBuilder) ?xs))))
           (map img_ID (notKept (KeepBlueprints exampleBuilder) ?xs) ! i) = None"
    unfolding nk by (simp add: refusingWorld_def)
  have f2: "Docker_ImageRemove refusingWorld
           (snd (removeContainers refusingWorld []) @ EvImageList complementLabel
               # map (\<lambda>i. EvImageRemove i True)
                   (map img_ID (notKept (KeepBlueprints exampleBuilder) ?xs)))
           (img_ID ?c) = Some (Error ''image in use'')"
    by (simp add: refusingWorld_def)
  from T [THEN conjunct2, THEN conjunct1, rule_format, of ?xs ?c ?ys "Error ''image in use''"]
    l2 k2 s2 f2
  have ri0: "removeImages refusingWorld exampleBuilder (snd (removeContainers refusingWorld []))
       = (Some (Error ''image in use''),
          snd (removeContainers refusingWorld []) @ EvImageList complementLabel
                       # map (\<lambda>i. EvImageRemove i True)
                           (map img_ID (notKept (KeepBlueprints exampleBuilder) ?xs)
                              @ [img_ID ?c]))"
    by blast
  have ri: "removeImages refusingWorld exampleBuilder (snd (removeContainers refusingWorld []))
       = (Some (Error ''image in use''),
          [EvContainerList True complementLabel, EvContainerRemove ''c1'' True,
           EvContainerRemove ''c2'' True,
           EvImageList complementLabel, EvImageRemove ''i2'' True, EvImageRemove ''i3'' True])"
    using ri0 by (simp add: nk rc)
  let ?trI = "snd (removeImages refusingWorld exampleBuilder (snd (removeContainers refusingWorld [])))"
  have l3: "Docker_NetworkList refusingWorld ?trI complementLabel = Inr ([''n1''] @ ''n2'' # [''n3''])"
    by (simp add: defs)
  have s3: "\<forall>i<length [''n1'']. Docker_NetworkRemove refusingWorld
           (?trI @ EvNetworkList complementLabel # map EvNetworkRemove (take i [''n1'']))
           ([''n1''] ! i) = None"
    by (simp add: refusingWorld_def)
  have f3: "Docker_NetworkRemove refusingWorld
           (?trI @ EvNetworkList complementLabel # map EvNetworkRemove [''n1'']) ''n2''
          = Some (Error ''network in use'')"
    by (simp add: refusingWorld_def)
  from T [THEN conjunct2, THEN conjunct2, rule_format,
      of "[''n1'']" "''n2''" "[''n3'']" "Error ''network in use''"] l3 s3 f3
  have c0: "Cleanup refusingWorld exampleBuilder []
         = ?trI @ EvNetworkList complementLabel # map EvNetworkRemove ([''n1''] @ [''n2''])"
    by blast
  have c: "Cleanup refusingWorld exampleBuilder []
       = [EvContainerList True complementLabel, EvContainerRemove ''c1'' True,
          EvContainerRemove ''c2'' True,
          EvImageList complementLabel, EvImageRemove ''i2'' True, EvImageRemove ''i3'' True,
          EvNetworkList complementLabel, EvNetworkRemove ''n1'', EvNetworkRemove ''n2'']"
    using c0 by (simp add: ri)
  show ?thesis using l1 f1 rc ri c by (intro conjI)
qed

text \<open>
  Claim C7. With the keep-list \<open>{bp1}\<close>, and the image listing of \<open>Cleanup\<close> answering
  \<open>images\<close>: the image removals that \<open>Cleanup\<close> requests are, in order, those of the first
  \<open>k\<close> images whose \<open>complement_blueprint\<close> label is not \<open>bp1\<close> (a missing label reads
  as the empty string), and no other image removal is requested. Either \<open>k\<close> covers all
  of them, or the last requested removal failed, which ends the pass. Listing entries
  having distinct identifiers, no image labelled \<open>bp1\<close> is among those removed.
\<close>

theorem cleanup_keeps_listed_blueprint:
  assumes keep: "KeepBlueprints d = [''bp1'']"
    and list: "Docker_ImageList rt (snd (removeContainers rt tr)) complementLabel = Inr images"
  shows "\<exists>k rest.
      k \<le> length (filter (\<lambda>img. lookup (img_Labels img) ''complement_blueprint'' \<noteq> ''bp1'') images)
    \<and> Cleanup rt d tr
        = snd (removeContainers rt tr) @ EvImageList complementLabel
            # map (\<lambda>i. EvImageRemove i True)
                (take k (map img_ID
                   (filter (\<lambda>img. lookup (img_Labels img) ''complement_blueprint'' \<noteq> ''bp1'')
                      images)))
            @ EvNetworkList complementLabel # rest
    \<and> (\<forall>i. EvImageRemove i True \<notin> set rest)
    \<and> (k = length (filter (\<lambda>img. lookup (img_Labels img) ''complement_blueprint'' \<noteq> ''bp1'')
                     images)
       \<or> (0 < k \<and> Docker_ImageRemove rt
             (snd (removeContainers rt tr) @ EvImageList complementLabel
                # map (\<lambda>i. EvImageRemove i True)
                    (take (k - 1) (map img_ID
                       (filter (\<lambda>img. lookup (img_Labels img) ''complement_blueprint'' \<noteq> ''bp1'')
                          images))))
             (map img_ID
                (filter (\<lambda>img. lookup (img_Labels img) ''complement_blueprint'' \<noteq> ''bp1'')
                   images) ! (k - 1)) \<noteq> None))
    \<and> (distinct (map img_ID images) \<longrightarrow>
         (\<forall>img\<in>set images. lookup (img_Labels img) ''complement_blueprint'' = ''bp1'' \<longrightarrow>
            img_ID img \<notin> set (take k (map img_ID
               (filter (\<lambda>img. lookup (img_Labels img) ''complement_blueprint'' \<noteq> ''bp1'')
                  images)))))"
proof -
  let ?others = "filter (\<lambda>img. lookup (img_Labels img) ''complement_blueprint'' \<noteq> ''bp1'') images"
  let ?ids = "map img_ID ?others"
  let ?trC = "snd (removeContainers rt tr)"
  let ?ev = "\<lambda>i. EvImageRemove i True"
  have nk: "notKept (KeepBlueprints d) images = ?others"
    by (simp add: notKept_def keep)
  have ri: "removeImages rt d ?trC
            = attemptAll (Docker_ImageRemove rt) ?ev ?ids (?trC @ [EvImageList complementLabel])"
    using list by (simp add: removeImages_def removeImagesLoop_attemptAll nk)
  from attemptAll_prefix [of ?ids "Docker_ImageRemove rt" ?ev "?trC @ [EvImageList complementLabel]"]
  obtain k where kk: "k \<le> length ?ids
      \<and> snd (attemptAll (Docker_ImageRemove rt) ?ev ?ids (?trC @ [EvImageList complementLabel]))
          = (?trC @ [EvImageList complementLabel]) @ map ?ev (take k ?ids)
      \<and> (fst (attemptAll (Docker_ImageRemove rt) ?ev ?ids (?trC @ [EvImageList complementLabel]))
            = None \<longrightarrow> k = length ?ids)
      \<and> (k = length ?ids
        \<or> (0 < k \<and> Docker_ImageRemove rt
              ((?trC @ [EvImageList complementLabel]) @ map ?ev (take (k - 1) ?ids))
              (?ids ! (k - 1)) \<noteq> None))" ..
  have k1: "k \<le> length ?others" using kk by simp
  have k2: "snd (removeImages rt d ?trC)
            = ?trC @ EvImageList complementLabel # map ?ev (take k ?ids)"
    using kk ri by simp
  have k4: "k = length ?others
        \<or> (0 < k \<and> Docker_ImageRemove rt
              (?trC @ EvImageList complementLabel # map ?ev (take (k - 1) ?ids))
              (?ids ! (k - 1)) \<noteq> None)"
    using kk by simp
  from removeNetworks_shape [of rt "?trC @ EvImageList complementLabel # map ?ev (take k ?ids)"]
  obtain rest where
    r1: "snd (removeNetworks rt (?trC @ EvImageList complementLabel # map ?ev (take k ?ids)))
         = (?trC @ EvImageList complementLabel # map ?ev (take k ?ids))
             @ EvNetworkList complementLabel # rest"
    and r2: "\<forall>e\<in>set rest. \<exists>n. e = EvNetworkRemove n" by blast
  have c: "Cleanup rt d tr
        = ?trC @ EvImageList complementLabel # map ?ev (take k ?ids)
            @ EvNetworkList complementLabel # rest"
    unfolding Cleanup_passes k2 r1 by simp
  have nr: "\<forall>i. EvImageRemove i True \<notin> set rest"
    using r2 by auto
  have dist: "distinct (map img_ID images) \<longrightarrow>
         (\<forall>img\<in>set images. lookup (img_Labels img) ''complement_blueprint'' = ''bp1'' \<longrightarrow>
            img_ID img \<notin> set (take k ?ids))"
  proof (intro impI ballI notI)
    fix img
    assume d: "distinct (map img_ID images)" and m: "img \<in> set images"
      and l: "lookup (img_Labels img) ''complement_blueprint'' = ''bp1''"
      and t: "img_ID img \<in> set (take k ?ids)"
    from t have "img_ID img \<in> set ?ids" by (rule in_set_takeD)
    then obtain img' where m': "img' \<in> set images"
      and l': "lookup (img_Labels img') ''complement_blueprint'' \<noteq> ''bp1''"
      and i': "img_ID img' = img_ID img" by auto
    from d have "inj_on img_ID (set images)" by (simp add: distinct_map)
    with m m' i' have "img' = img" by (auto dest: inj_onD)
    with l l' show False by simp
  qed
  have "k \<le> length ?others
    \<and> Cleanup rt d tr
        = ?trC @ EvImageList complementLabel # map ?ev (take k ?ids)
            @ EvNetworkList complementLabel # rest
    \<and> (\<forall>i. EvImageRemove i True \<notin> set rest)
    \<and> (k = length ?others
       \<or> (0 < k \<and> Docker_ImageRemove rt
             (?trC @ EvImageList complementLabel # map ?ev (take (k - 1) ?ids))
             (?ids ! (k - 1)) \<noteq> None))
    \<and> (distinct (map img_ID images) \<longrightarrow>
         (\<forall>img\<in>set images. lookup (img_Labels img) ''complement_blueprint'' = ''bp1'' \<longrightarrow>
            img_ID img \<notin> set (take k ?ids)))"
    by (rule conjI k1 c nr k4 dist)+
  then show ?thesis by (intro exI)
qed

text \<open>Claim C7: four images, the first of blueprint \<open>bp1\<close>, the last without the label.\<close>

theorem cleanup_keeps_listed_blueprint_witness:
  "KeepBlueprints exampleBuilder = [''bp1'']
   \<and> Docker_ImageList listingWorld (snd (removeContainers listingWorld [])) complementLabel
       = Inr exampleImages
   \<and> distinct (map img_ID exampleImages)
   \<and> (\<exists>rest. Cleanup listingWorld exampleBuilder []
                = snd (removeContainers listingWorld [])
                    @ [EvImageList complementLabel, EvImageRemove ''i2'' True,
                       EvImageRemove ''i3'' True, EvImageRemove ''i4'' True,
                       EvNetworkList complementLabel] @ rest)"
proof -
  let ?P = "\<lambda>img. lookup (img_Labels img) ''complement_blueprint'' \<noteq> ''bp1''"
  have keep: "KeepBlueprints exampleBuilder = [''bp1'']"
    by (simp add: exampleBuilder_def)
  have list: "Docker_ImageList listingWorld (snd (removeContainers listingWorld [])) complementLabel
       = Inr exampleImages"
    by (simp add: listingWorld_def)
  have dist: "distinct (map img_ID exampleImages)"
    by (simp add: exampleImages_def)
  have ids: "map img_ID (filter ?P exampleImages) = [''i2'', ''i3'', ''i4'']"
    by (simp add: exampleImages_def lookup_def)
  have never: "Docker_ImageRemove listingWorld t i = None" for t i
    by (simp add: listingWorld_def calmWorld_def)
  from cleanup_keeps_listed_blueprint [OF keep list]
  obtain k rest where
    c: "Cleanup listingWorld exampleBuilder []
        = snd (removeContainers listingWorld []) @ EvImageList complementLabel
            # map (\<lambda>i. EvImageRemove i True) (take k (map img_ID (filter ?P exampleImages)))
            @ EvNetworkList complementLabel # rest"
    and k: "k = length (filter ?P exampleImages)
       \<or> (0 < k \<and> Docker_ImageRemove listingWorld
             (snd (removeContainers listingWorld []) @ EvImageList complementLabel
                # map (\<lambda>i. EvImageRemove i True)
                    (take (k - 1) (map img_ID (filter ?P exampleImages))))
             (map img_ID (filter ?P exampleImages) ! (k - 1)) \<noteq> None)"
    by blast
  from k have "k = length (filter ?P exampleImages)" by (simp add: never)
  then have "k = 3" using ids by (metis length_map length_Cons list.size(3) numeral_3_eq_3)
  with c have "Cleanup listingWorld exampleBuilder []
                = snd (removeContainers listingWorld [])
                    @ [EvImageList complementLabel, EvImageRemove ''i2'' True,
                       EvImageRemove ''i3'' True, EvImageRemove ''i4'' True,
                       EvNetworkList complementLabel] @ rest"
    by (simp add: ids)
  then show ?thesis using keep list dist by blast
qed

section \<open>Properties of the fleet orchestration\<close>

lemma rounds_shift: "(tr @ R) @ concat (replicate m R) = tr @ concat (replicate (Suc m) R)"
  by simp

lemma pollImages_cases:
  assumes "i \<le> 50"
  shows "\<exists>k. k \<le> 50 - i
     \<and> (\<forall>m<k. \<exists>images.
            Docker_ImageList rt
              (tr @ concat (replicate m [EvImageList complementLabel, EvSleep 100]))
              complementLabel = Inr images \<and> length images < n)
     \<and> ( (k = 50 - i
           \<and> pollImages rt n i tr
              = (Inr False, tr @ concat (replicate k [EvImageList complementLabel, EvSleep 100])))
       \<or> (k < 50 - i
           \<and> (\<exists>images.
                 Docker_ImageList rt
                   (tr @ concat (replicate k [EvImageList complementLabel, EvSleep 100]))
                   complementLabel = Inr images \<and> n \<le> length images)
           \<and> pollImages rt n i tr
              = (Inr True, tr @ concat (replicate k [EvImageList complementLabel, EvSleep 100])
                              @ [EvImageList complementLabel]))
       \<or> (k < 50 - i
           \<and> (\<exists>e. Docker_ImageList rt
                     (tr @ concat (replicate k [EvImageList complementLabel, EvSleep 100]))
                     complementLabel = Inl e
                 \<and> pollImages rt n i tr
                    = (Inl e, tr @ concat (replicate k [EvImageList complementLabel, EvSleep 100])
                                 @ [EvImageList complementLabel]))))"
    (is "\<exists>k. ?Q i tr k")
  using assms
proof (induction "50 - i" arbitrary: i tr)
  case 0
  then have "i = 50" by simp
  then have "pollImages rt n i tr = (Inr False, tr)"
    by (simp add: pollImages.simps)
  then have "?Q i tr 0" using \<open>i = 50\<close> by simp
  then show ?case by (rule exI)
next
  case (Suc d)
  then have lt: "i < 50" and d: "d = 50 - (i + 1)" and le: "i + 1 \<le> 50" by simp_all
  let ?R = "[EvImageList complementLabel, EvSleep 100]"
  show ?case
  proof (cases "Docker_ImageList rt tr complementLabel")
    case (Inl e)
    then have "pollImages rt n i tr = (Inl e, tr @ [EvImageList complementLabel])"
      using lt by (simp add: pollImages.simps)
    then have "?Q i tr 0" using Inl lt by simp
    then show ?thesis by (rule exI)
  next
    case (Inr images)
    show ?thesis
    proof (cases "length images < n")
      case False
      then have "pollImages rt n i tr = (Inr True, tr @ [EvImageList complementLabel])"
        using lt Inr by (simp add: pollImages.simps)
      then have "?Q i tr 0" using Inr False lt by simp
      then show ?thesis by (rule exI)
    next
      case True
      have step: "pollImages rt n i tr = pollImages rt n (i + 1) (tr @ ?R)"
        using lt Inr True by (subst pollImages.simps) simp
      from Suc.hyps(1) [OF d le, of "tr @ ?R"] obtain k where k: "?Q (i + 1) (tr @ ?R) k" ..
      from k have "k \<le> 50 - (i + 1)" by (rule conjunct1)
      then have b: "Suc k \<le> 50 - i" using lt by arith
      have short: "\<forall>m<Suc k. \<exists>images.
            Docker_ImageList rt (tr @ concat (replicate m ?R)) complementLabel = Inr images
            \<and> length images < n"
      proof (intro allI impI)
        fix m assume m: "m < Suc k"
        show "\<exists>images.
            Docker_ImageList rt (tr @ concat (replicate m ?R)) complementLabel = Inr images
            \<and> length images < n"
        proof (cases m)
          case 0
          then show ?thesis using Inr True by simp
        next
          case (Suc m')
          then have "m' < k" using m by simp
          with k [THEN conjunct2, THEN conjunct1] have "\<exists>images.
            Docker_ImageList rt ((tr @ ?R) @ concat (replicate m' ?R)) complementLabel = Inr images
            \<and> length images < n" by blast
          then show ?thesis unfolding rounds_shift Suc .
        qed
      qed
      from k [THEN conjunct2, THEN conjunct2] have alt: "(k = 50 - (i + 1)
           \<and> pollImages rt n (i + 1) (tr @ ?R)
              = (Inr False, (tr @ ?R) @ concat (replicate k ?R)))
       \<or> (k < 50 - (i + 1)
           \<and> (\<exists>images.
                 Docker_ImageList rt ((tr @ ?R) @ concat (replicate k ?R))
                   complementLabel = Inr images \<and> n \<le> length images)
           \<and> pollImages rt n (i + 1) (tr @ ?R)
              = (Inr True, (tr @ ?R) @ concat (replicate k ?R) @ [EvImageList complementLabel]))
       \<or> (k < 50 - (i + 1)
           \<and> (\<exists>e. Docker_ImageList rt ((tr @ ?R) @ concat (replicate k ?R))
                     complementLabel = Inl e
                 \<and> pollImages rt n (i + 1) (tr @ ?R)
                    = (Inl e, (tr @ ?R) @ concat (replicate k ?R)
                                 @ [EvImageList complementLabel])))"
        .
      have alt': "(Suc k = 50 - i
           \<and> pollImages rt n i tr = (Inr False, tr @ concat (replicate (Suc k) ?R)))
       \<or> (Suc k < 50 - i
           \<and> (\<exists>images.
                 Docker_ImageList rt (tr @ concat (replicate (Suc k) ?R))
                   complementLabel = Inr images \<and> n \<le> length images)
           \<and> pollImages rt n i tr
              = (Inr True, tr @ concat (replicate (Suc k) ?R) @ [EvImageList complementLabel]))
       \<or> (Suc k < 50 - i
           \<and> (\<exists>e. Docker_ImageList rt (tr @ concat (replicate (Suc k) ?R))
                     complementLabel = Inl e
                 \<and> pollImages rt n i tr
                    = (Inl e, tr @ concat (replicate (Suc k) ?R)
                                 @ [EvImageList complementLabel])))"
        using alt lt unfolding step by (elim disjE) auto
      have "?Q i tr (Suc k)"
        by (rule conjI b short alt')+
      then show ?thesis by (rule exI)
    qed
  qed
qed

lemma ConstructBlueprints_after_fanin:
  assumes "concat posted = []"
  shows "ConstructBlueprints rt d bs posted tr =
     (case pollImages rt (length bs) 0 tr of
        (Inl err, tr1) \<Rightarrow> (Some err, tr1)
      | (Inr foundImages, tr1) \<Rightarrow>
          (if foundImages then None
           else Some (Error ''failed to find built images via ImageList: did they all build ok?''),
           snd (removeNetworks rt tr1)))"
  using assms
  by (simp add: ConstructBlueprints_def Let_def split: prod.splits sum.splits)

lemma ConstructBlueprints_failed_blueprint:
  assumes "concat posted \<noteq> []"
  shows "ConstructBlueprints rt d bs posted tr = (Some (hd (concat posted)), tr)"
  using assms by (simp add: ConstructBlueprints_def Let_def)

lemma pollImages_exhausted:
  assumes never: "\<forall>j<50. \<exists>images.
       Docker_ImageList rt (tr @ concat (replicate j [EvImageList complementLabel, EvSleep 100]))
         complementLabel = Inr images \<and> length images < n"
  shows "pollImages rt n 0 tr
         = (Inr False, tr @ concat (replicate 50 [EvImageList complementLabel, EvSleep 100]))"
proof -
  let ?R = "[EvImageList complementLabel, EvSleep 100]"
  have "(0::nat) \<le> 50" by simp
  from pollImages_cases [OF this, of rt tr n] obtain k where
    k: "k \<le> 50 - 0
     \<and> (\<forall>m<k. \<exists>images.
            Docker_ImageList rt (tr @ concat (replicate m ?R)) complementLabel = Inr images
            \<and> length images < n)
     \<and> ( (k = 50 - 0
           \<and> pollImages rt n 0 tr = (Inr False, tr @ concat (replicate k ?R)))
       \<or> (k < 50 - 0
           \<and> (\<exists>images.
                 Docker_ImageList rt (tr @ concat (replicate k ?R))
                   complementLabel = Inr images \<and> n \<le> length images)
           \<and> pollImages rt n 0 tr
              = (Inr True, tr @ concat (replicate k ?R) @ [EvImageList complementLabel]))
       \<or> (k < 50 - 0
           \<and> (\<exists>e. Docker_ImageList rt (tr @ concat (replicate k ?R))
                     complementLabel = Inl e
                 \<and> pollImages rt n 0 tr
                    = (Inl e, tr @ concat (replicate k ?R)
                                 @ [EvImageList complementLabel]))))" ..
  from k [THEN conjunct2, THEN conjunct2] show ?thesis
  proof (elim disjE conjE exE)
    assume "k = 50 - 0" and "pollImages rt n 0 tr = (Inr False, tr @ concat (replicate k ?R))"
    then show ?thesis by simp
  next
    fix images
    assume lt: "k < 50 - 0"
      and l: "Docker_ImageList rt (tr @ concat (replicate k ?R)) complementLabel = Inr images"
      and n: "n \<le> length images"
    from lt have "k < 50" by simp
    with never obtain images' where
      "Docker_ImageList rt (tr @ concat (replicate k ?R)) complementLabel = Inr images'"
      "length images' < n" by blast
    with l n show ?thesis by simp
  next
    fix e
    assume lt: "k < 50 - 0"
      and l: "Docker_ImageList rt (tr @ concat (replicate k ?R)) complementLabel = Inl e"
    from lt have "k < 50" by simp
    with never obtain images' where
      "Docker_ImageList rt (tr @ concat (replicate k ?R)) complementLabel = Inr images'"
      by blast
    with l show ?thesis by simp
  qed
qed

lemma ConstructBlueprints_exhausted:
  assumes ok: "concat posted = []"
    and never: "\<forall>j<50. \<exists>images.
       Docker_ImageList rt (tr @ concat (replicate j [EvImageList complementLabel, EvSleep 100]))
         complementLabel = Inr images \<and> length images < length bs"
  shows "ConstructBlueprints rt d bs posted tr
         = (Some (Error ''failed to find built images via ImageList: did they all build ok?''),
            snd (removeNetworks rt
                   (tr @ concat (replicate 50 [EvImageList complementLabel, EvSleep 100]))))"
  unfolding ConstructBlueprints_after_fanin [OF ok] pollImages_exhausted [OF never]
  by simp

lemma filter_rounds:
  "length (filter P (concat (replicate n R))) = n * length (filter P R)"
  by (induction n) auto

text \<open>
  Claim C6. When no blueprint posted an error and each of the 50 listings of the polling
  loop answers with fewer images than there are blueprints, \<open>ConstructBlueprints\<close> requests
  the listing exactly 50 times, sleeping 100 ms after each, then attempts the removal of
  the networks and returns the error that the built images were not found. The loop is a
  function with a termination proof, so the call returns in every case.
\<close>

theorem construct_bounded_polling:
  assumes ok: "concat posted = []"
    and never: "\<forall>j<50. \<exists>images.
       Docker_ImageList rt (tr @ concat (replicate j [EvImageList complementLabel, EvSleep 100]))
         complementLabel = Inr images \<and> length images < length bs"
  shows "\<exists>nets.
       ConstructBlueprints rt d bs posted tr
         = (Some (Error ''failed to find built images via ImageList: did they all build ok?''),
            tr @ concat (replicate 50 [EvImageList complementLabel, EvSleep 100])
               @ EvNetworkList complementLabel # nets)
     \<and> (\<forall>e\<in>set nets. \<exists>n. e = EvNetworkRemove n)
     \<and> length (filter (\<lambda>e. e = EvImageList complementLabel)
                 (concat (replicate 50 [EvImageList complementLabel, EvSleep 100])
                    @ EvNetworkList complementLabel # nets)) = 50
     \<and> length (filter (\<lambda>e. e = EvSleep 100)
                 (concat (replicate 50 [EvImageList complementLabel, EvSleep 100])
                    @ EvNetworkList complementLabel # nets)) = 50"
proof -
  let ?R = "[EvImageList complementLabel, EvSleep 100]"
  from removeNetworks_shape [of rt "tr @ concat (replicate 50 ?R)"] obtain nets where
    n1: "snd (removeNetworks rt (tr @ concat (replicate 50 ?R)))
         = (tr @ concat (replicate 50 ?R)) @ EvNetworkList complementLabel # nets"
    and n2: "\<forall>e\<in>set nets. \<exists>n. e = EvNetworkRemove n" by blast
  have r: "ConstructBlueprints rt d bs posted tr
         = (Some (Error ''failed to find built images via ImageList: did they all build ok?''),
            tr @ concat (replicate 50 ?R) @ EvNetworkList complementLabel # nets)"
    unfolding ConstructBlueprints_exhausted [OF ok never] n1 by simp
  have f1: "filter (\<lambda>e. e = EvImageList complementLabel) nets = []"
    using n2 by (auto simp: filter_empty_conv)
  have f2: "filter (\<lambda>e. e = EvSleep 100) nets = []"
    using n2 by (auto simp: filter_empty_conv)
  have c1: "length (filter (\<lambda>e. e = EvImageList complementLabel)
                 (concat (replicate 50 ?R) @ EvNetworkList complementLabel # nets)) = 50"
    by (simp add: filter_rounds f1)
  have c2: "length (filter (\<lambda>e. e = EvSleep 100)
                 (concat (replicate 50 ?R) @ EvNetworkList complementLabel # nets)) = 50"
    by (simp add: filter_rounds f2)
  have "ConstructBlueprints rt d bs posted tr
         = (Some (Error ''failed to find built images via ImageList: did they all build ok?''),
            tr @ concat (replicate 50 ?R) @ EvNetworkList complementLabel # nets)
     \<and> (\<forall>e\<in>set nets. \<exists>n. e = EvNetworkRemove n)
     \<and> length (filter (\<lambda>e. e = EvImageList complementLabel)
                 (concat (replicate 50 ?R) @ EvNetworkList complementLabel # nets)) = 50
     \<and> length (filter (\<lambda>e. e = EvSleep 100)
                 (concat (replicate 50 ?R) @ EvNetworkList complementLabel # nets)) = 50"
    by (rule conjI r n2 c1 c2)+
  then show ?thesis by (rule exI)
qed

text \<open>Claim C6: one blueprint, and a runtime whose image listing stays empty.\<close>

theorem construct_bounded_polling_witness:
  "concat [[]] = ([] :: error list)
   \<and> (\<forall>t. Docker_ImageList staleWorld t complementLabel = Inr [])
   \<and> length ([] :: ImageSummary list) < length [exampleBlueprint]
   \<and> fst (ConstructBlueprints staleWorld exampleBuilder [exampleBlueprint] [[]] [])
       = Some (Error ''failed to find built images via ImageList: did they all build ok?'')"
proof -
  have ok: "concat [[]] = ([] :: error list)" by simp
  have never: "\<forall>j<50. \<exists>images.
         Docker_ImageList staleWorld
           ([] @ concat (replicate j [EvImageList complementLabel, EvSleep 100]))
           complementLabel = Inr images \<and> length images < length [exampleBlueprint]"
    by (simp add: staleWorld_def calmWorld_def)
  from construct_bounded_polling [OF ok never, of exampleBuilder]
  have "fst (ConstructBlueprints staleWorld exampleBuilder [exampleBlueprint] [[]] [])
       = Some (Error ''failed to find built images via ImageList: did they all build ok?'')"
    by (elim exE conjE) simp
  moreover have "\<forall>t. Docker_ImageList staleWorld t complementLabel = Inr []"
    by (simp add: staleWorld_def calmWorld_def)
  moreover have "length ([] :: ImageSummary list) < length [exampleBlueprint]" by simp
  ultimately show ?thesis using ok by (intro conjI)
qed

text \<open>
  Claim C3. The claim, and the comment in \<open>ConstructBlueprints\<close> ("do this after we have
  found images so we know that the containers have been detached"), say that the networks
  are removed only once the image listing has reached the number of blueprints. The code
  calls \<open>removeNetworks\<close> before it tests \<open>foundImages\<close>. Evaluated on one blueprint that
  posted no error, with a runtime whose image listing stays empty and whose network
  listing holds \<open>n1\<close>: the polling loop ends after 50 rounds without having found the
  images, and the call lists the networks and requests the removal of \<open>n1\<close> before it
  returns the error that the images were not found.
\<close>

theorem networks_removed_without_convergence:
  "(\<forall>t. Docker_ImageList staleWorld t complementLabel = Inr [])
   \<and> pollImages staleWorld (length [exampleBlueprint]) 0 []
       = (Inr False, concat (replicate 50 [EvImageList complementLabel, EvSleep 100]))
   \<and> ConstructBlueprints staleWorld exampleBuilder [exampleBlueprint] [[]] []
       = (Some (Error ''failed to find built images via ImageList: did they all build ok?''),
          concat (replicate 50 [EvImageList complementLabel, EvSleep 100])
            @ [EvNetworkList complementLabel, EvNetworkRemove ''n1''])"
proof -
  have ok: "concat [[]] = ([] :: error list)" by simp
  have l: "\<forall>t. Docker_ImageList staleWorld t complementLabel = Inr []"
    by (simp add: staleWorld_def calmWorld_def)
  have never: "\<forall>j<50. \<exists>images.
         Docker_ImageList staleWorld
           ([] @ concat (replicate j [EvImageList complementLabel, EvSleep 100]))
           complementLabel = Inr images \<and> length images < length [exampleBlueprint]"
    using l by simp
  have p: "pollImages staleWorld (length [exampleBlueprint]) 0 []
       = (Inr False, concat (replicate 50 [EvImageList complementLabel, EvSleep 100]))"
    unfolding pollImages_exhausted [OF never] by simp
  have n: "snd (removeNetworks staleWorld t)
           = t @ [EvNetworkList complementLabel, EvNetworkRemove ''n1'']" for t
    by (simp add: removeNetworks_def staleWorld_def calmWorld_def)
  have c: "ConstructBlueprints staleWorld exampleBuilder [exampleBlueprint] [[]] []
       = (Some (Error ''failed to find built images via ImageList: did they all build ok?''),
          concat (replicate 50 [EvImageList complementLabel, EvSleep 100])
            @ [EvNetworkList complementLabel, EvNetworkRemove ''n1''])"
    unfolding ConstructBlueprints_exhausted [OF ok never] n by simp
  show ?thesis by (rule conjI l p c)+
qed

section \<open>Properties of the deployment\<close>

lemma fmtInt_8008: "fmtInt 8008 = ''8008''"
  by (simp add: fmtInt_def digitsOf.simps)

lemma fmtInt_8448: "fmtInt 8448 = ''8448''"
  by (simp add: fmtInt_def digitsOf.simps)

lemma endpoints_published:
  assumes "map_of p ''8008/tcp'' = Some (csb # csrest)"
    and "map_of p ''8448/tcp'' = Some (ssb # ssrest)"
  shows "endpoints rt p 8008 8448
         = Returns (''http://'' @ HostnameRunningDocker rt @ '':'' @ pb_HostPort csb,
                    ''https://'' @ HostnameRunningDocker rt @ '':'' @ pb_HostPort ssb,
                    None)"
  using assms by (simp add: endpoints_def fmtInt_8008 fmtInt_8448)

lemma versionCheck_step_failure:
  assumes "i < n" and "pollFailure url (http_Get rt tr url) = Some e"
  shows "versionCheck rt url n i lastErr tr
         = versionCheck rt url n (i + 1) (Some e) (tr @ [EvHttpGet url, EvSleep 50])"
  using assms
  by (subst versionCheck.simps)
     (auto simp: pollFailure_def split: sum.splits prod.splits if_splits)

lemma versionCheck_done:
  assumes "\<not> i < n"
  shows "versionCheck rt url n i lastErr tr = (lastErr, tr)"
  using assms by (subst versionCheck.simps) simp

lemma versionCheck_exhausted:
  assumes "n - i = int m"
    and "\<forall>j<m. pollFailure url
            (http_Get rt (tr @ concat (replicate j [EvHttpGet url, EvSleep 50])) url) \<noteq> None"
  shows "snd (versionCheck rt url n i lastErr tr)
           = tr @ concat (replicate m [EvHttpGet url, EvSleep 50])
       \<and> fst (versionCheck rt url n i lastErr tr)
           = (if m = 0 then lastErr
              else pollFailure url
                     (http_Get rt (tr @ concat (replicate (m - 1) [EvHttpGet url, EvSleep 50]))
                        url))"
  using assms
proof (induction m arbitrary: i lastErr tr)
  case 0
  then have "\<not> i < n" by simp
  then show ?case by (simp add: versionCheck_done)
next
  case (Suc m)
  let ?R = "[EvHttpGet url, EvSleep 50]"
  from Suc.prems(1) have lt: "i < n" and nxt: "n - (i + 1) = int m" by simp_all
  from Suc.prems(2) have "pollFailure url (http_Get rt (tr @ concat (replicate 0 ?R)) url) \<noteq> None"
    by blast
  then obtain e where e: "pollFailure url (http_Get rt tr url) = Some e" by auto
  have rest: "\<forall>j<m. pollFailure url
            (http_Get rt ((tr @ ?R) @ concat (replicate j ?R)) url) \<noteq> None"
  proof (intro allI impI)
    fix j assume "j < m"
    then have "Suc j < Suc m" by simp
    from Suc.prems(2) [rule_format, OF this]
    show "pollFailure url (http_Get rt ((tr @ ?R) @ concat (replicate j ?R)) url) \<noteq> None"
      by simp
  qed
  note ih = Suc.IH [OF nxt rest, of "Some e"]
  have step: "versionCheck rt url n i lastErr tr
              = versionCheck rt url n (i + 1) (Some e) (tr @ ?R)"
    using lt e by (rule versionCheck_step_failure)
  show ?case
  proof (cases m)
    case 0
    with ih e show ?thesis unfolding step by simp
  next
    case (Suc m')
    with ih show ?thesis unfolding step by simp
  qed
qed

lemma deployImage_deployed:
  assumes ca: "(os_Getenv rt ''COMPLEMENT_CA'' \<noteq> ''true'' \<and> tr0 = tr \<and> caVolume = []
                \<and> caMount = [])
             \<or> (os_Getenv rt ''COMPLEMENT_CA'' = ''true''
                \<and> getCaVolume rt tr = (Inr (caVolume, caMount), tr0))"
    and create: "Docker_ContainerCreate rt tr0
                   (deployCreateRequest rt imageID containerName blueprintName hsName
                      asIDToRegistrationMap contextStr networkID caVolume caMount)
                 = Inr containerID"
    and start: "Docker_ContainerStart rt
                  (tr0 @ [EvContainerCreate
                     (deployCreateRequest rt imageID containerName blueprintName hsName
                        asIDToRegistrationMap contextStr networkID caVolume caMount)])
                  containerID = None"
    and inspect: "Docker_ContainerInspect rt
                  (tr0 @ [EvContainerCreate
                     (deployCreateRequest rt imageID containerName blueprintName hsName
                        asIDToRegistrationMap contextStr networkID caVolume caMount),
                          EvContainerStart containerID])
                  containerID = Inr insp"
    and cs: "map_of (cj_Ports insp) ''8008/tcp'' = Some (csb # csrest)"
    and ss: "map_of (cj_Ports insp) ''8448/tcp'' = Some (ssb # ssrest)"
  shows "deployImage rt imageID csPort containerName blueprintName hsName asIDToRegistrationMap
           contextStr networkID versionCheckIterations tr
     = (Returns
          (Some \<lparr>hd_BaseURL = ''http://'' @ HostnameRunningDocker rt @ '':'' @ pb_HostPort csb,
                 hd_FedBaseURL = ''https://'' @ HostnameRunningDocker rt @ '':'' @ pb_HostPort ssb,
                 hd_ContainerID = containerID,
                 hd_AccessTokens = tokensFromLabels (cj_Labels insp),
                 hd_ApplicationServices = asIDToRegistrationFromLabels (cj_Labels insp)\<rparr>,
           (case fst (versionCheck rt
                   (''http://'' @ HostnameRunningDocker rt @ '':'' @ pb_HostPort csb
                      @ ''/_matrix/client/versions'')
                   versionCheckIterations 0 None
                   (tr0 @ [EvContainerCreate
                     (deployCreateRequest rt imageID containerName blueprintName hsName
                        asIDToRegistrationMap contextStr networkID caVolume caMount),
                          EvContainerStart containerID, EvContainerInspect containerID])) of
              Some e \<Rightarrow> Some (Error (contextStr @ '': failed to check server is up. ''
                                      @ message e))
            | None \<Rightarrow> None)),
        snd (versionCheck rt
                   (''http://'' @ HostnameRunningDocker rt @ '':'' @ pb_HostPort csb
                      @ ''/_matrix/client/versions'')
                   versionCheckIterations 0 None
                   (tr0 @ [EvContainerCreate
                     (deployCreateRequest rt imageID containerName blueprintName hsName
                        asIDToRegistrationMap contextStr networkID caVolume caMount),
                          EvContainerStart containerID, EvContainerInspect containerID])))"
proof -
  have first: "(if os_Getenv rt ''COMPLEMENT_CA'' = ''true'' then getCaVolume rt tr
                else (Inr ([], []), tr)) = (Inr (caVolume, caMount), tr0)"
    using ca by auto
  show ?thesis
    unfolding deployImage_def first
    using create start inspect
    by (simp add: Let_def endpoints_published [OF cs ss] split: prod.splits option.splits)
qed

text \<open>
  Claim C4, as stated, fails. With the iteration bound 0 the loop makes no request: on a
  runtime where create, start and inspect succeed, both ports are published and no
  homeserver ever answers, the poll ends without a success, and \<open>deployImage\<close> returns the
  deployment with a nil error.
\<close>

theorem deployImage_zero_iterations_counterexample:
  "fst (deployImage unreachableWorld ''base'' 8008 ''complement_bp1.hs1'' ''bp1'' ''hs1'' []
          ''bp1.hs1'' ''net'' 0 [])
   = Returns (Some \<lparr>hd_BaseURL = ''http://localhost:32768'',
                     hd_FedBaseURL = ''https://localhost:32769'',
                     hd_ContainerID = ''id-complement_bp1.hs1'',
                     hd_AccessTokens = [],
                     hd_ApplicationServices = []\<rparr>, None)"
  by (simp add: deployImage_def unreachableWorld_def calmWorld_def examplePorts_def
      endpoints_def fmtInt_8008 fmtInt_8448 HostnameRunningDocker_def Let_def
      versionCheck_done tokensFromLabels_def asIDToRegistrationFromLabels_def
      deployCreateRequest_def)

text \<open>
  Claim C4, amended to a positive iteration bound. Where the trust anchor, if requested,
  is resolved, create, start and inspect succeed, the ports 8008/tcp and 8448/tcp are
  published, and each of the \<open>versionCheckIterations > 0\<close> requests of the health check
  fails (an error, or a status other than 200), \<open>deployImage\<close> returns a deployment with
  the container identifier, both base URLs and the maps decoded from the container's
  labels, together with an error that wraps the failure of the last request, after
  exactly that many requests, each followed by a sleep of 50 ms.
\<close>

theorem deployImage_health_check_exhausted:
  assumes ca: "(os_Getenv rt ''COMPLEMENT_CA'' \<noteq> ''true'' \<and> tr0 = tr \<and> caVolume = []
                \<and> caMount = [])
             \<or> (os_Getenv rt ''COMPLEMENT_CA'' = ''true''
                \<and> getCaVolume rt tr = (Inr (caVolume, caMount), tr0))"
    and req: "req = deployCreateRequest rt imageID containerName blueprintName hsName
                      asIDToRegistrationMap contextStr networkID caVolume caMount"
    and create: "Docker_ContainerCreate rt tr0 req = Inr containerID"
    and start: "Docker_ContainerStart rt (tr0 @ [EvContainerCreate req]) containerID = None"
    and inspect: "Docker_ContainerInspect rt
                    (tr0 @ [EvContainerCreate req, EvContainerStart containerID]) containerID
                  = Inr insp"
    and cs: "map_of (cj_Ports insp) ''8008/tcp'' = Some (csb # csrest)"
    and ss: "map_of (cj_Ports insp) ''8448/tcp'' = Some (ssb # ssrest)"
    and url: "versionsURL = ''http://'' @ HostnameRunningDocker rt @ '':'' @ pb_HostPort csb
                              @ ''/_matrix/client/versions''"
    and tr3: "tr3 = tr0 @ [EvContainerCreate req, EvContainerStart containerID,
                            EvContainerInspect containerID]"
    and pos: "0 < versionCheckIterations"
    and polls: "\<forall>j<nat versionCheckIterations.
                  pollFailure versionsURL
                    (http_Get rt (tr3 @ concat (replicate j [EvHttpGet versionsURL, EvSleep 50]))
                       versionsURL) \<noteq> None"
  shows "\<exists>e.
      pollFailure versionsURL
        (http_Get rt
           (tr3 @ concat (replicate (nat versionCheckIterations - 1)
                            [EvHttpGet versionsURL, EvSleep 50]))
           versionsURL) = Some e
    \<and> deployImage rt imageID csPort containerName blueprintName hsName asIDToRegistrationMap
           contextStr networkID versionCheckIterations tr
      = (Returns
          (Some \<lparr>hd_BaseURL = ''http://'' @ HostnameRunningDocker rt @ '':'' @ pb_HostPort csb,
                 hd_FedBaseURL = ''https://'' @ HostnameRunningDocker rt @ '':'' @ pb_HostPort ssb,
                 hd_ContainerID = containerID,
                 hd_AccessTokens = tokensFromLabels (cj_Labels insp),
                 hd_ApplicationServices = asIDToRegistrationFromLabels (cj_Labels insp)\<rparr>,
           Some (Error (contextStr @ '': failed to check server is up. '' @ message e))),
         tr3 @ concat (replicate (nat versionCheckIterations)
                         [EvHttpGet versionsURL, EvSleep 50]))"
proof -
  let ?R = "[EvHttpGet versionsURL, EvSleep 50]"
  let ?m = "nat versionCheckIterations"
  have m: "versionCheckIterations - 0 = int ?m" using pos by simp
  have mpos: "?m \<noteq> 0" using pos by simp
  note vc = versionCheck_exhausted [OF m polls, of None]
  have vs: "snd (versionCheck rt versionsURL versionCheckIterations 0 None tr3)
            = tr3 @ concat (replicate ?m ?R)"
    using vc by (rule conjunct1)
  have vf: "fst (versionCheck rt versionsURL versionCheckIterations 0 None tr3)
            = pollFailure versionsURL
                (http_Get rt (tr3 @ concat (replicate (?m - 1) ?R)) versionsURL)"
    using vc [THEN conjunct2] mpos by simp
  have "?m - 1 < ?m" using pos by simp
  with polls have "pollFailure versionsURL
                (http_Get rt (tr3 @ concat (replicate (?m - 1) ?R)) versionsURL) \<noteq> None"
    by blast
  then obtain e where e: "pollFailure versionsURL
                (http_Get rt (tr3 @ concat (replicate (?m - 1) ?R)) versionsURL) = Some e"
    by auto
  have tr3': "tr0 @ [EvContainerCreate
                     (deployCreateRequest rt imageID containerName blueprintName hsName
                        asIDToRegistrationMap contextStr networkID caVolume caMount),
                          EvContainerStart containerID, EvContainerInspect containerID] = tr3"
    using tr3 req by simp
  have "deployImage rt imageID csPort containerName blueprintName hsName asIDToRegistrationMap
           contextStr networkID versionCheckIterations tr
      = (Returns
          (Some \<lparr>hd_BaseURL = ''http://'' @ HostnameRunningDocker rt @ '':'' @ pb_HostPort csb,
                 hd_FedBaseURL = ''https://'' @ HostnameRunningDocker rt @ '':'' @ pb_HostPort ssb,
                 hd_ContainerID = containerID,
                 hd_AccessTokens = tokensFromLabels (cj_Labels insp),
                 hd_ApplicationServices = asIDToRegistrationFromLabels (cj_Labels insp)\<rparr>,
           Some (Error (contextStr @ '': failed to check server is up. '' @ message e))),
         tr3 @ concat (replicate ?m ?R))"
    unfolding deployImage_deployed [OF ca create [unfolded req] start [unfolded req]
        inspect [unfolded req] cs ss] tr3' url [symmetric] vs vf e
    by simp
  with e show ?thesis by blast
qed

text \<open>Claim C4, amended: two iterations on a runtime where no homeserver answers.\<close>

theorem deployImage_health_check_exhausted_witness:
  "os_Getenv unreachableWorld ''COMPLEMENT_CA'' \<noteq> ''true''
   \<and> (0::int) < 2
   \<and> (\<forall>t. http_Get unreachableWorld t ''http://localhost:32768/_matrix/client/versions''
             = Inl (Error ''connection refused''))
   \<and> pollFailure ''http://localhost:32768/_matrix/client/versions''
         (Inl (Error ''connection refused'')) \<noteq> None
   \<and> fst (deployImage unreachableWorld ''base'' 8008 ''complement_bp1.hs1'' ''bp1'' ''hs1'' []
            ''bp1.hs1'' ''net'' 2 [])
     = Returns (Some \<lparr>hd_BaseURL = ''http://localhost:32768'',
                       hd_FedBaseURL = ''https://localhost:32769'',
                       hd_ContainerID = ''id-complement_bp1.hs1'',
                       hd_AccessTokens = [],
                       hd_ApplicationServices = []\<rparr>,
                Some (Error (''bp1.hs1: failed to check server is up. ''
                  @ ''GET http://localhost:32768/_matrix/client/versions''
                  @ '' => error: connection refused'')))"
proof -
  let ?W = unreachableWorld
  let ?req = "deployCreateRequest ?W ''base'' ''complement_bp1.hs1'' ''bp1''
                    ''hs1'' [] ''bp1.hs1'' ''net'' [] []"
  let ?url = "''http://localhost:32768/_matrix/client/versions''"
  let ?tr3 = "[EvContainerCreate ?req, EvContainerStart ''id-complement_bp1.hs1'',
               EvContainerInspect ''id-complement_bp1.hs1'']"
  let ?insp = "\<lparr>cj_Mounts = [], cj_Ports = examplePorts, cj_Labels = []\<rparr>"
  let ?csb = "\<lparr>pb_HostIP = ''0.0.0.0'', pb_HostPort = ''32768''\<rparr>"
  let ?ssb = "\<lparr>pb_HostIP = ''0.0.0.0'', pb_HostPort = ''32769''\<rparr>"
  note defs = unreachableWorld_def calmWorld_def
  have env: "os_Getenv ?W ''COMPLEMENT_CA'' \<noteq> ''true''" by (simp add: defs)
  have ca: "(os_Getenv ?W ''COMPLEMENT_CA'' \<noteq> ''true'' \<and> [] = ([] :: history)
              \<and> [] = ([] :: string list) \<and> [] = ([] :: Mount list))
          \<or> (os_Getenv ?W ''COMPLEMENT_CA'' = ''true''
              \<and> getCaVolume ?W [] = (Inr ([], []), []))"
    using env by simp
  have create: "Docker_ContainerCreate ?W [] ?req = Inr ''id-complement_bp1.hs1''"
    by (simp add: defs deployCreateRequest_def)
  have start: "Docker_ContainerStart ?W ([] @ [EvContainerCreate ?req]) ''id-complement_bp1.hs1''
               = None"
    by (simp add: defs)
  have inspect: "Docker_ContainerInspect ?W
                   ([] @ [EvContainerCreate ?req, EvContainerStart ''id-complement_bp1.hs1''])
                   ''id-complement_bp1.hs1'' = Inr ?insp"
    by (simp add: defs)
  have cs: "map_of (cj_Ports ?insp) ''8008/tcp'' = Some (?csb # [])"
    by (simp add: examplePorts_def)
  have ss: "map_of (cj_Ports ?insp) ''8448/tcp'' = Some (?ssb # [])"
    by (simp add: examplePorts_def)
  have url: "?url = ''http://'' @ HostnameRunningDocker ?W @ '':'' @ pb_HostPort ?csb
                       @ ''/_matrix/client/versions''"
    by (simp add: HostnameRunningDocker_def defs)
  have tr3: "?tr3 = [] @ [EvContainerCreate ?req, EvContainerStart ''id-complement_bp1.hs1'',
                            EvContainerInspect ''id-complement_bp1.hs1'']"
    by simp
  have pos: "(0::int) < 2" by simp
  have polls: "\<forall>j<nat 2. pollFailure ?url
          (http_Get ?W (?tr3 @ concat (replicate j [EvHttpGet ?url, EvSleep 50])) ?url) \<noteq> None"
    by (simp add: defs pollFailure_def)
  from deployImage_health_check_exhausted
         [OF ca refl create start inspect cs ss url tr3 pos polls, of 8008]
  obtain e where
    e: "pollFailure ?url
        (http_Get ?W (?tr3 @ concat (replicate (nat 2 - 1) [EvHttpGet ?url, EvSleep 50])) ?url)
        = Some e"
    and r: "deployImage ?W ''base'' 8008 ''complement_bp1.hs1'' ''bp1'' ''hs1'' []
            ''bp1.hs1'' ''net'' 2 []
      = (Returns
          (Some \<lparr>hd_BaseURL = ''http://'' @ HostnameRunningDocker ?W @ '':'' @ pb_HostPort ?csb,
                 hd_FedBaseURL = ''https://'' @ HostnameRunningDocker ?W @ '':'' @ pb_HostPort ?ssb,
                 hd_ContainerID = ''id-complement_bp1.hs1'',
                 hd_AccessTokens = tokensFromLabels (cj_Labels ?insp),
                 hd_ApplicationServices = asIDToRegistrationFromLabels (cj_Labels ?insp)\<rparr>,
           Some (Error (''bp1.hs1'' @ '': failed to check server is up. '' @ message e))),
         ?tr3 @ concat (replicate (nat 2) [EvHttpGet ?url, EvSleep 50]))"
    by blast
  from e have e': "e = Error (''GET '' @ ?url @ '' => error: connection refused'')"
    by (simp add: defs pollFailure_def)
  have res: "fst (deployImage ?W ''base'' 8008 ''complement_bp1.hs1'' ''bp1'' ''hs1'' []
            ''bp1.hs1'' ''net'' 2 [])
     = Returns (Some \<lparr>hd_BaseURL = ''http://localhost:32768'',
                       hd_FedBaseURL = ''https://localhost:32769'',
                       hd_ContainerID = ''id-complement_bp1.hs1'',
                       hd_AccessTokens = [],
                       hd_ApplicationServices = []\<rparr>,
                Some (Error (''bp1.hs1: failed to check server is up. ''
                  @ ''GET http://localhost:32768/_matrix/client/versions''
                  @ '' => error: connection refused'')))"
    unfolding r e'
    by (simp add: HostnameRunningDocker_def defs tokensFromLabels_def
        asIDToRegistrationFromLabels_def)
  have refused: "\<forall>t. http_Get ?W t ?url = Inl (Error ''connection refused'')"
    by (simp add: defs)
  have fails: "pollFailure ?url (Inl (Error ''connection refused'')) \<noteq> None"
    by (simp add: pollFailure_def)
  from env pos refused fails res show ?thesis by (intro conjI)
qed

lemma versionCheck_no_create:
  "\<exists>t. snd (versionCheck rt url n i lastErr tr) = tr @ t
       \<and> (\<forall>e\<in>set t. \<forall>r. e \<noteq> EvContainerCreate r)"
proof (induction rt url n i lastErr tr rule: versionCheck.induct)
  case (1 rt url n i lastErr tr)
  show ?case
  proof (cases "i < n")
    case False
    then show ?thesis by (simp add: versionCheck_done)
  next
    case True
    show ?thesis
    proof (cases "http_Get rt tr url")
      case (Inl err)
      from "1.IH"(1) [OF True Inl] obtain t where
        t: "snd (versionCheck rt url n (i + 1)
                  (Some (Error (''GET '' @ url @ '' => error: '' @ message err)))
                  (tr @ [EvHttpGet url, EvSleep 50]))
            = (tr @ [EvHttpGet url, EvSleep 50]) @ t"
        and nc: "\<forall>e\<in>set t. \<forall>r. e \<noteq> EvContainerCreate r" by blast
      have "snd (versionCheck rt url n i lastErr tr) = tr @ ([EvHttpGet url, EvSleep 50] @ t)"
        using t True Inl by (subst versionCheck.simps) simp
      moreover have "\<forall>e\<in>set ([EvHttpGet url, EvSleep 50] @ t). \<forall>r. e \<noteq> EvContainerCreate r"
        using nc by simp
      ultimately show ?thesis by blast
    next
      case (Inr answer)
      obtain statusCode status where a: "answer = (statusCode, status)" by (cases answer)
      show ?thesis
      proof (cases "statusCode = 200")
        case True200: True
        have "snd (versionCheck rt url n i lastErr tr) = tr @ [EvHttpGet url]"
          using True Inr a True200 by (subst versionCheck.simps) simp
        moreover have "\<forall>e\<in>set [EvHttpGet url]. \<forall>r. e \<noteq> EvContainerCreate r" by simp
        ultimately show ?thesis by blast
      next
        case False
        from "1.IH"(2) [OF True Inr a [symmetric] False] obtain t where
          t: "snd (versionCheck rt url n (i + 1)
                  (Some (Error (''GET '' @ url @ '' => HTTP '' @ status)))
                  (tr @ [EvHttpGet url, EvSleep 50]))
            = (tr @ [EvHttpGet url, EvSleep 50]) @ t"
          and nc: "\<forall>e\<in>set t. \<forall>r. e \<noteq> EvContainerCreate r" by blast
        have "snd (versionCheck rt url n i lastErr tr) = tr @ ([EvHttpGet url, EvSleep 50] @ t)"
          using t True Inr a False by (subst versionCheck.simps) simp
        moreover have "\<forall>e\<in>set ([EvHttpGet url, EvSleep 50] @ t). \<forall>r. e \<noteq> EvContainerCreate r"
          using nc by simp
        ultimately show ?thesis by blast
      qed
    qed
  qed
qed

lemma versionCheck_no_createD:
  "versionCheck rt url n i lastErr tr = (r, tr')
   \<Longrightarrow> \<exists>t. tr' = tr @ t \<and> (\<forall>e\<in>set t. \<forall>r. e \<noteq> EvContainerCreate r)"
  using versionCheck_no_create [of rt url n i lastErr tr] by simp

lemma deployImage_create:
  assumes first: "(if os_Getenv rt ''COMPLEMENT_CA'' = ''true'' then getCaVolume rt tr
                   else (Inr ([], []), tr)) = (Inr (caVolume, caMount), tr0)"
  shows "\<exists>rest.
           snd (deployImage rt imageID csPort containerName blueprintName hsName
                  asIDToRegistrationMap contextStr networkID versionCheckIterations tr)
           = tr0 @ EvContainerCreate
                     (deployCreateRequest rt imageID containerName blueprintName hsName
                        asIDToRegistrationMap contextStr networkID caVolume caMount) # rest
         \<and> (\<forall>e\<in>set rest. \<forall>r. e \<noteq> EvContainerCreate r)"
  unfolding deployImage_def first
  by (auto simp: Let_def dest!: versionCheck_no_createD
      split: sum.splits option.splits prod.splits outcome.splits)

lemma registration_env_entry:
  assumes m: "map_of m i = Some doc"
  shows "(''AS_REGISTRATION_'' @ i @ ''='') @ doc
           \<in> set (cr_Env (deployCreateRequest rt imageID containerName blueprintName hsName m
                             contextStr networkID caVolume caMount))"
proof -
  from m have "(i, doc) \<in> set m" by (rule map_of_SomeD)
  then have "(''AS_REGISTRATION_'' @ i @ ''='') @ doc \<in> set (deployEnv rt hsName m)"
    unfolding deployEnv_eq by force
  then show ?thesis by (simp add: deployCreateRequest_def)
qed

text \<open>
  Claim C8. Let \<open>a\<close> be an application service of a homeserver. The label
  \<open>application_service_<id>\<close> holds the registration document of an application service
  \<open>a'\<close> with that id (\<open>a\<close> itself when ids are distinct), whose lines are, in this order:
  id, hs_token, as_token, url, sender_localpart, rate_limited, then the namespaces with
  empty users, rooms and aliases lists. When the trust-anchor step of the deployment
  succeeds, \<open>deployBaseImage\<close> sends exactly one container-create request, right after
  that step, and the environment of the request has the entry \<open>AS_REGISTRATION_<id>=\<close>
  followed by the same document. The same holds of the call of \<open>deployImage\<close> that
  \<open>deployBaseImage\<close> makes when the labels are decoded in any iteration order \<open>ls\<close> and
  the decoded registrations are iterated in any order \<open>m\<close>.
\<close>

theorem registration_field_order:
  assumes a: "a \<in> set (hs_ApplicationServices hs)"
    and first: "(if os_Getenv rt ''COMPLEMENT_CA'' = ''true'' then getCaVolume rt tr
                 else (Inr ([], []), tr)) = (Inr (caVolume, caMount), tr0)"
    and ls: "distinct (map fst ls)" "map_of ls = map_of (labelsForApplicationServices hs)"
    and m: "distinct (map fst m)" "map_of m = map_of (asIDToRegistrationFromLabels ls)"
  shows "\<exists>a' \<in> set (hs_ApplicationServices hs). \<exists>doc.
           as_ID a' = as_ID a
         \<and> (distinct (map as_ID (hs_ApplicationServices hs)) \<longrightarrow> a' = a)
         \<and> doc =
             ''id: '' @ as_ID a' @ ''\<newline>'' @
             ''hs_token: '' @ fixedHSToken @ ''\<newline>'' @
             ''as_token: '' @ fixedASToken @ ''\<newline>'' @
             ''url: '' @ [CHR 0x27] @ as_URL a' @ [CHR 0x27] @ ''\<newline>'' @
             ''sender_localpart: '' @ as_SenderLocalpart a' @ ''\<newline>'' @
             ''rate_limited: '' @ (if as_RateLimited a' then ''true'' else ''false'') @ ''\<newline>'' @
             ''namespaces:\<newline>  users: []\<newline>  rooms: []\<newline>  aliases: []\<newline>''
         \<and> map_of (labelsForApplicationServices hs) (''application_service_'' @ as_ID a) = Some doc
         \<and> (\<exists>req rest.
               snd (deployBaseImage rt d blueprintName hs contextStr networkID tr)
                 = tr0 @ EvContainerCreate req # rest
             \<and> (\<forall>e\<in>set rest. \<forall>r. e \<noteq> EvContainerCreate r)
             \<and> (''AS_REGISTRATION_'' @ as_ID a @ ''='') @ doc \<in> set (cr_Env req))
         \<and> (\<exists>req rest.
               snd (deployImage rt (BaseImage d) (CSAPIPort d) (''complement_'' @ contextStr)
                      blueprintName (hs_Name hs) m contextStr networkID
                      (cfg_VersionCheckIterations (config d)) tr)
                 = tr0 @ EvContainerCreate req # rest
             \<and> (\<forall>e\<in>set rest. \<forall>r. e \<noteq> EvContainerCreate r)
             \<and> (''AS_REGISTRATION_'' @ as_ID a @ ''='') @ doc \<in> set (cr_Env req))"
proof -
  from asRegistrations_member [OF a] obtain a' where
    a': "a' \<in> set (hs_ApplicationServices hs)" "as_ID a' = as_ID a"
    and reg: "asRegistrations hs (as_ID a) = Some (registrationDocument a')" by blast
  let ?doc = "registrationDocument a'"
  let ?m0 = "asIDToRegistrationFromLabels (labelsForApplicationServices hs)"
  let ?entry = "(''AS_REGISTRATION_'' @ as_ID a @ ''='') @ ?doc"
  have lab: "map_of (labelsForApplicationServices hs) (''application_service_'' @ as_ID a)
             = Some ?doc"
    by (simp only: labelsForApplicationServices_registration reg)
  have m0: "map_of ?m0 (as_ID a) = Some ?doc"
    by (simp only: decoded_registrations_lookup reg)
  have mm: "map_of m (as_ID a) = Some ?doc"
    by (simp only: m(2) asIDToRegistrationFromLabels_lookup [OF ls(1)] ls(2) lab)
  have same: "distinct (map as_ID (hs_ApplicationServices hs)) \<longrightarrow> a' = a"
    using a' a by (auto simp: distinct_map dest: inj_onD)
  from deployImage_create [OF first, of "BaseImage d" "CSAPIPort d" "''complement_'' @ contextStr"
      blueprintName "hs_Name hs" ?m0 contextStr networkID "cfg_VersionCheckIterations (config d)"]
  obtain rest0 where
    r0: "snd (deployImage rt (BaseImage d) (CSAPIPort d) (''complement_'' @ contextStr)
                blueprintName (hs_Name hs) ?m0 contextStr networkID
                (cfg_VersionCheckIterations (config d)) tr)
         = tr0 @ EvContainerCreate
                   (deployCreateRequest rt (BaseImage d) (''complement_'' @ contextStr)
                      blueprintName (hs_Name hs) ?m0 contextStr networkID caVolume caMount)
                 # rest0
       \<and> (\<forall>e\<in>set rest0. \<forall>r. e \<noteq> EvContainerCreate r)" ..
  have b0: "snd (deployBaseImage rt d blueprintName hs contextStr networkID tr)
         = tr0 @ EvContainerCreate
                   (deployCreateRequest rt (BaseImage d) (''complement_'' @ contextStr)
                      blueprintName (hs_Name hs) ?m0 contextStr networkID caVolume caMount)
                 # rest0"
    using r0 [THEN conjunct1] by (simp only: deployBaseImage_def Let_def)
  let ?req0 = "deployCreateRequest rt (BaseImage d) (''complement_'' @ contextStr)
                 blueprintName (hs_Name hs) ?m0 contextStr networkID caVolume caMount"
  have base: "\<exists>req rest.
               snd (deployBaseImage rt d blueprintName hs contextStr networkID tr)
                 = tr0 @ EvContainerCreate req # rest
             \<and> (\<forall>e\<in>set rest. \<forall>r. e \<noteq> EvContainerCreate r)
             \<and> ?entry \<in> set (cr_Env req)"
    by (rule exI [of _ ?req0], rule exI [of _ rest0])
       (rule conjI b0 r0 [THEN conjunct2] registration_env_entry [OF m0])+
  from deployImage_create [OF first, of "BaseImage d" "CSAPIPort d" "''complement_'' @ contextStr"
      blueprintName "hs_Name hs" m contextStr networkID "cfg_VersionCheckIterations (config d)"]
  obtain rest1 where
    r1: "snd (deployImage rt (BaseImage d) (CSAPIPort d) (''complement_'' @ contextStr)
                blueprintName (hs_Name hs) m contextStr networkID
                (cfg_VersionCheckIterations (config d)) tr)
         = tr0 @ EvContainerCreate
                   (deployCreateRequest rt (BaseImage d) (''complement_'' @ contextStr)
                      blueprintName (hs_Name hs) m contextStr networkID caVolume caMount)
                 # rest1
       \<and> (\<forall>e\<in>set rest1. \<forall>r. e \<noteq> EvContainerCreate r)" ..
  let ?req1 = "deployCreateRequest rt (BaseImage d) (''complement_'' @ contextStr)
                 blueprintName (hs_Name hs) m contextStr networkID caVolume caMount"
  have any: "\<exists>req rest.
               snd (deployImage rt (BaseImage d) (CSAPIPort d) (''complement_'' @ contextStr)
                      blueprintName (hs_Name hs) m contextStr networkID
                      (cfg_VersionCheckIterations (config d)) tr)
                 = tr0 @ EvContainerCreate req # rest
             \<and> (\<forall>e\<in>set rest. \<forall>r. e \<noteq> EvContainerCreate r)
             \<and> ?entry \<in> set (cr_Env req)"
    by (rule exI [of _ ?req1], rule exI [of _ rest1])
       (rule conjI r1 [THEN conjunct1] r1 [THEN conjunct2] registration_env_entry [OF mm])+
  show ?thesis
    by (rule bexI [OF _ a'(1)], rule exI [of _ ?doc])
       (rule conjI a'(2) same registrationDocument_eq lab base any)+
qed

text \<open>Claim C8: the example homeserver deployed on a runtime where every call succeeds, its
  labels taken in reverse order.\<close>

theorem registration_field_order_witness:
  "exampleAS \<in> set (hs_ApplicationServices exampleHS)
   \<and> distinct (map as_ID (hs_ApplicationServices exampleHS))
   \<and> (if os_Getenv calmWorld ''COMPLEMENT_CA'' = ''true'' then getCaVolume calmWorld []
       else (Inr ([], []), [])) = (Inr ([], []), [])
   \<and> distinct (map fst (rev (labelsForApplicationServices exampleHS)))
   \<and> map_of (rev (labelsForApplicationServices exampleHS))
       = map_of (labelsForApplicationServices exampleHS)
   \<and> distinct (map fst (asIDToRegistrationFromLabels (rev (labelsForApplicationServices exampleHS))))
   \<and> map_of (labelsForApplicationServices exampleHS) ''application_service_bridge''
       = Some (''id: bridge\<newline>hs_token: '' @ fixedHSToken @ ''\<newline>as_token: '' @ fixedASToken
               @ ''\<newline>url: '' @ [CHR 0x27] @ ''http://localhost:9000'' @ [CHR 0x27]
               @ ''\<newline>sender_localpart: bot\<newline>rate_limited: false\<newline>''
               @ ''namespaces:\<newline>  users: []\<newline>  rooms: []\<newline>  aliases: []\<newline>'')
   \<and> (\<exists>req rest.
         snd (deployBaseImage calmWorld exampleBuilder ''bp1'' exampleHS ''bp1.hs1'' ''net'' [])
           = EvContainerCreate req # rest
       \<and> ''AS_REGISTRATION_bridge='' @
            (''id: bridge\<newline>hs_token: '' @ fixedHSToken @ ''\<newline>as_token: '' @ fixedASToken
               @ ''\<newline>url: '' @ [CHR 0x27] @ ''http://localhost:9000'' @ [CHR 0x27]
               @ ''\<newline>sender_localpart: bot\<newline>rate_limited: false\<newline>''
               @ ''namespaces:\<newline>  users: []\<newline>  rooms: []\<newline>  aliases: []\<newline>'')
           \<in> set (cr_Env req))
   \<and> (\<exists>req rest.
         snd (deployImage calmWorld (BaseImage exampleBuilder) (CSAPIPort exampleBuilder)
                (''complement_'' @ ''bp1.hs1'') ''bp1'' (hs_Name exampleHS)
                (asIDToRegistrationFromLabels (rev (labelsForApplicationServices exampleHS)))
                ''bp1.hs1'' ''net'' (cfg_VersionCheckIterations (config exampleBuilder)) [])
           = EvContainerCreate req # rest
       \<and> ''AS_REGISTRATION_bridge='' @
            (''id: bridge\<newline>hs_token: '' @ fixedHSToken @ ''\<newline>as_token: '' @ fixedASToken
               @ ''\<newline>url: '' @ [CHR 0x27] @ ''http://localhost:9000'' @ [CHR 0x27]
               @ ''\<newline>sender_localpart: bot\<newline>rate_limited: false\<newline>''
               @ ''namespaces:\<newline>  users: []\<newline>  rooms: []\<newline>  aliases: []\<newline>'')
           \<in> set (cr_Env req))"
  (is "?A \<and> ?D \<and> ?F \<and> ?L1 \<and> ?L2 \<and> ?M1 \<and> ?Lab \<and> ?Base \<and> ?Any")
proof -
  let ?ls = "rev (labelsForApplicationServices exampleHS)"
  let ?DOC = "''id: bridge\<newline>hs_token: '' @ fixedHSToken @ ''\<newline>as_token: '' @ fixedASToken
               @ ''\<newline>url: '' @ [CHR 0x27] @ ''http://localhost:9000'' @ [CHR 0x27]
               @ ''\<newline>sender_localpart: bot\<newline>rate_limited: false\<newline>''
               @ ''namespaces:\<newline>  users: []\<newline>  rooms: []\<newline>  aliases: []\<newline>''"
  have a: ?A by (simp add: exampleHS_def)
  have d: ?D by (simp add: exampleHS_def)
  have f: ?F by (simp add: calmWorld_def)
  have l1: ?L1 by (simp only: distinct_rev rev_map [symmetric] labelsForApplicationServices_distinct)
  have l2: ?L2
    by (rule map_of_inject_set [THEN iffD2, OF l1 labelsForApplicationServices_distinct]) simp
  have m1: ?M1 by (rule asIDToRegistrationFromLabels_distinct)
  from registration_field_order [OF a f l1 l2 m1 refl, of exampleBuilder "''bp1''" "''bp1.hs1''" "''net''"]
  have r: "?Lab \<and> ?Base \<and> ?Any"
  proof (elim bexE exE conjE)
    fix a' doc req rest req1 rest1
    assume same: "distinct (map as_ID (hs_ApplicationServices exampleHS)) \<longrightarrow> a' = exampleAS"
      and doc: "doc =
             ''id: '' @ as_ID a' @ ''\<newline>'' @
             ''hs_token: '' @ fixedHSToken @ ''\<newline>'' @
             ''as_token: '' @ fixedASToken @ ''\<newline>'' @
             ''url: '' @ [CHR 0x27] @ as_URL a' @ [CHR 0x27] @ ''\<newline>'' @
             ''sender_localpart: '' @ as_SenderLocalpart a' @ ''\<newline>'' @
             ''rate_limited: '' @ (if as_RateLimited a' then ''true'' else ''false'') @ ''\<newline>'' @
             ''namespaces:\<newline>  users: []\<newline>  rooms: []\<newline>  aliases: []\<newline>''"
      and lab: "map_of (labelsForApplicationServices exampleHS)
                  (''application_service_'' @ as_ID exampleAS) = Some doc"
      and h0: "snd (deployBaseImage calmWorld exampleBuilder ''bp1'' exampleHS ''bp1.hs1'' ''net'' [])
               = [] @ EvContainerCreate req # rest"
      and e0: "(''AS_REGISTRATION_'' @ as_ID exampleAS @ ''='') @ doc \<in> set (cr_Env req)"
      and h1: "snd (deployImage calmWorld (BaseImage exampleBuilder) (CSAPIPort exampleBuilder)
                (''complement_'' @ ''bp1.hs1'') ''bp1'' (hs_Name exampleHS)
                (asIDToRegistrationFromLabels ?ls)
                ''bp1.hs1'' ''net'' (cfg_VersionCheckIterations (config exampleBuilder)) [])
               = [] @ EvContainerCreate req1 # rest1"
      and e1: "(''AS_REGISTRATION_'' @ as_ID exampleAS @ ''='') @ doc \<in> set (cr_Env req1)"
    from same d have "a' = exampleAS" by simp
    with doc have dd: "doc = ?DOC" by (simp add: exampleAS_def)
    have i: "as_ID exampleAS = ''bridge''" by (simp add: exampleAS_def)
    have lab': ?Lab using lab unfolding dd i by simp
    have e0': "''AS_REGISTRATION_bridge='' @ ?DOC \<in> set (cr_Env req)"
      using e0 unfolding dd i by simp
    have e1': "''AS_REGISTRATION_bridge='' @ ?DOC \<in> set (cr_Env req1)"
      using e1 unfolding dd i by simp
    have h0': "snd (deployBaseImage calmWorld exampleBuilder ''bp1'' exampleHS ''bp1.hs1'' ''net'' [])
               = EvContainerCreate req # rest"
      using h0 by (simp only: append_Nil)
    have h1': "snd (deployImage calmWorld (BaseImage exampleBuilder) (CSAPIPort exampleBuilder)
                (''complement_'' @ ''bp1.hs1'') ''bp1'' (hs_Name exampleHS)
                (asIDToRegistrationFromLabels ?ls)
                ''bp1.hs1'' ''net'' (cfg_VersionCheckIterations (config exampleBuilder)) [])
               = EvContainerCreate req1 # rest1"
      using h1 by (simp only: append_Nil)
    have b: ?Base
      by (rule exI [of _ req], rule exI [of _ rest]) (rule conjI h0' e0')+
    have c: ?Any
      by (rule exI [of _ req1], rule exI [of _ rest1]) (rule conjI h1' e1')+
    show ?thesis by (rule conjI lab' b c)+
  qed
  show ?thesis
    by (rule conjI a d f l1 l2 m1 r [THEN conjunct1] r [THEN conjunct2, THEN conjunct1]
          r [THEN conjunct2, THEN conjunct2])+
qed

section \<open>Properties of the blueprint construction\<close>

lemma versionCheck_lifecycle:
  "filter isCommitOrKill (snd (versionCheck rt url n i lastErr tr)) = filter isCommitOrKill tr"
proof (induction rt url n i lastErr tr rule: versionCheck.induct)
  case (1 rt url n i lastErr tr)
  show ?case
  proof (cases "i < n")
    case False
    then show ?thesis by (simp add: versionCheck_done)
  next
    case True
    show ?thesis
    proof (cases "http_Get rt tr url")
      case (Inl err)
      from "1.IH"(1) [OF True Inl] True Inl show ?thesis
        by (subst versionCheck.simps) simp
    next
      case (Inr answer)
      obtain statusCode status where a: "answer = (statusCode, status)" by (cases answer)
      show ?thesis
      proof (cases "statusCode = 200")
        case True200: True
        with True Inr a show ?thesis by (subst versionCheck.simps) simp
      next
        case False
        from "1.IH"(2) [OF True Inr a [symmetric] False] True Inr a False show ?thesis
          by (subst versionCheck.simps) simp
      qed
    qed
  qed
qed

lemma getCaVolume_lifecycle:
  "filter isCommitOrKill (snd (getCaVolume rt tr)) = filter isCommitOrKill tr"
  by (simp add: getCaVolume_def Let_def split: sum.splits option.splits)

lemma versionCheck_lifecycleD:
  "versionCheck rt url n i lastErr tr = (r, tr')
   \<Longrightarrow> filter isCommitOrKill tr' = filter isCommitOrKill tr"
  using versionCheck_lifecycle [of rt url n i lastErr tr] by simp

lemma deployImage_lifecycle:
  "filter isCommitOrKill
     (snd (deployImage rt imageID csPort containerName blueprintName hsName
             asIDToRegistrationMap contextStr networkID versionCheckIterations tr))
   = filter isCommitOrKill tr"
proof -
  obtain ca tr0 where first:
    "(if os_Getenv rt ''COMPLEMENT_CA'' = ''true'' then getCaVolume rt tr
      else (Inr ([], []), tr)) = (ca, tr0)"
    by (cases "if os_Getenv rt ''COMPLEMENT_CA'' = ''true'' then getCaVolume rt tr
               else (Inr ([], []), tr)")
  have tr0: "filter isCommitOrKill tr0 = filter isCommitOrKill tr"
    using first getCaVolume_lifecycle [of rt tr] by (auto split: if_splits)
  show ?thesis
    unfolding deployImage_def first
    by (auto simp: Let_def tr0 dest!: versionCheck_lifecycleD
        split: sum.splits option.splits prod.splits outcome.splits)
qed

lemma deployBaseImage_lifecycle:
  "filter isCommitOrKill (snd (deployBaseImage rt d blueprintName hs contextStr networkID tr))
   = filter isCommitOrKill tr"
  by (simp add: deployBaseImage_def Let_def deployImage_lifecycle)

lemma constructHomeserver_lifecycle:
  "filter isCommitOrKill (snd (constructHomeserver rt d blueprintName hs networkID tr))
   = filter isCommitOrKill tr"
  using deployBaseImage_lifecycle
          [of rt d blueprintName hs "blueprintName @ ''.'' @ hs_Name hs" networkID tr]
  by (auto simp: constructHomeserver_def Let_def
      split: prod.splits outcome.splits option.splits)

lemma CreateNetwork_history:
  "snd (CreateNetwork rt blueprintName tr)
   = tr @ [EvNetworkCreate (''complement_'' @ blueprintName)
             [(complementLabel, blueprintName), (''complement_blueprint'', blueprintName)]]"
  by (simp add: CreateNetwork_def Let_def split: sum.splits prod.splits)

lemma constructHomeserver_setup_failed:
  assumes "deployBaseImage rt d blueprintName hs (blueprintName @ ''.'' @ hs_Name hs) networkID tr
           = (Returns (Some dep, None), tr')"
    and "runner_Run rt tr' blueprintName hs (hd_BaseURL dep) = Some e"
  shows "constructHomeserver rt d blueprintName hs networkID tr
         = (Returns \<lparr>res_err = Some e, res_containerID = hd_ContainerID dep,
                     res_contextStr = blueprintName @ ''.'' @ hs_Name hs,
                     res_homeserver = hs\<rparr>,
            tr' @ [EvRun blueprintName (hs_Name hs) (hd_BaseURL dep)])"
  using assms by (simp add: constructHomeserver_def Let_def)

lemma constructHomeserver_result:
  assumes "constructHomeserver rt d blueprintName hs networkID tr = (Returns r, tr')"
  shows "res_homeserver r = hs \<and> res_contextStr r = blueprintName @ ''.'' @ hs_Name hs"
  using assms
  by (auto simp: constructHomeserver_def Let_def
      split: prod.splits outcome.splits option.splits)

text \<open>
  Claim C2. For a blueprint with the homeservers \<open>[h1, h2]\<close> whose network is created,
  where the construction of \<open>h1\<close> returns a result without error and, for \<open>h2\<close>, the
  deployment succeeds and the runner's instructions fail with \<open>e\<close>: \<open>construct\<close> ends
  with the commit of \<open>h1\<close>'s container (tagged \<open>localhost/complement:<blueprint>.<h1>\<close>,
  with the labels of \<open>h1\<close>), then the kill of \<open>h2\<close>'s container, then the kill of
  \<open>h1\<close>'s; these three are all the commits and kills that it adds to the history, so
  exactly one commit is requested, none for \<open>h2\<close>, and \<open>h2\<close>'s container is killed before
  \<open>construct\<close> returns. It returns \<open>e\<close>, followed by the commit's error if the runtime
  refuses the commit, and by nothing if the runtime accepts it.
\<close>

theorem construct_partial_commit:
  assumes hss: "bp_Homeservers bprint = [h1, h2]"
    and net: "CreateNetwork rt (bp_Name bprint) tr = ((networkID, None), tr1)"
    and first: "constructHomeserver rt d (bp_Name bprint) h1 networkID tr1 = (Returns r1, tr2)"
    and ok1: "res_err r1 = None"
    and dep2: "deployBaseImage rt d (bp_Name bprint) h2 (bp_Name bprint @ ''.'' @ hs_Name h2)
                 networkID tr2 = (Returns (Some dep, None), tr3)"
    and run2: "runner_Run rt tr3 (bp_Name bprint) h2 (hd_BaseURL dep) = Some e"
    and trL: "trL = tr3 @ EvRun (bp_Name bprint) (hs_Name h2) (hd_BaseURL dep)
                      # (if hd_ContainerID dep \<noteq> [] then [EvContainerLogs (hd_ContainerID dep)]
                         else [])"
    and opts: "opts = \<lparr>co_Author = ''Complement'', co_Pause = True,
                       co_Reference = ''localhost/complement:'' @ bp_Name bprint @ ''.''
                                        @ hs_Name h1,
                       co_Labels = commitLabels
                                     (runner_AccessTokens rt trL (bp_Name bprint) (hs_Name h1))
                                     h1\<rparr>"
  shows "snd (construct rt d bprint tr)
         = trL @ [EvContainerCommit (res_containerID r1) opts,
                  EvContainerKill (hd_ContainerID dep) ''KILL'',
                  EvContainerKill (res_containerID r1) ''KILL'']
       \<and> filter isCommitOrKill (snd (construct rt d bprint tr))
         = filter isCommitOrKill tr
             @ [EvContainerCommit (res_containerID r1) opts,
                EvContainerKill (hd_ContainerID dep) ''KILL'',
                EvContainerKill (res_containerID r1) ''KILL'']
       \<and> fst (construct rt d bprint tr)
         = Returns (e # (case Docker_ContainerCommit rt trL (res_containerID r1) opts of
                           Inl err \<Rightarrow> [Error ((bp_Name bprint @ ''.'' @ hs_Name h1)
                                              @ '' : failed to ContainerCommit: ''
                                              @ message err)]
                         | Inr commitID \<Rightarrow> []))"
proof -
  let ?bn = "bp_Name bprint"
  let ?r2 = "\<lparr>res_err = Some e, res_containerID = hd_ContainerID dep,
              res_contextStr = ?bn @ ''.'' @ hs_Name h2, res_homeserver = h2\<rparr>"
  let ?fin = "[EvContainerCommit (res_containerID r1) opts,
               EvContainerKill (hd_ContainerID dep) ''KILL'',
               EvContainerKill (res_containerID r1) ''KILL'']"
  have second: "constructHomeserver rt d ?bn h2 networkID tr2
                = (Returns ?r2, tr3 @ [EvRun ?bn (hs_Name h2) (hd_BaseURL dep)])"
    using dep2 run2 by (rule constructHomeserver_setup_failed)
  have r1: "res_homeserver r1 = h1" "res_contextStr r1 = ?bn @ ''.'' @ hs_Name h1"
    using constructHomeserver_result [OF first] by simp_all
  have loop: "constructHomeservers rt d ?bn networkID [h1, h2] [] [] tr1
              = (([r1, ?r2], [e], False), trL)"
    by (simp add: first ok1 second printLogs_def trL)
  have commit: "commitContainers rt ?bn [r1, ?r2] [e] trL
        = (e # (case Docker_ContainerCommit rt trL (res_containerID r1) opts of
                           Inl err \<Rightarrow> [Error ((?bn @ ''.'' @ hs_Name h1)
                                              @ '' : failed to ContainerCommit: ''
                                              @ message err)]
                         | Inr commitID \<Rightarrow> []),
           trL @ [EvContainerCommit (res_containerID r1) opts])"
    by (simp add: ok1 r1 Let_def opts split: sum.splits)
  have kill: "killContainers rt (rev [r1, ?r2]) (trL @ [EvContainerCommit (res_containerID r1) opts])
              = trL @ ?fin"
    by simp
  have all: "construct rt d bprint tr
        = (Returns (e # (case Docker_ContainerCommit rt trL (res_containerID r1) opts of
                           Inl err \<Rightarrow> [Error ((?bn @ ''.'' @ hs_Name h1)
                                              @ '' : failed to ContainerCommit: ''
                                              @ message err)]
                         | Inr commitID \<Rightarrow> [])),
           trL @ ?fin)"
    unfolding construct_def
    by (simp only: net hss loop prod.case option.case bool.case commit kill Let_def)
  have t1: "tr1 = tr @ [EvNetworkCreate (''complement_'' @ ?bn)
             [(complementLabel, ?bn), (''complement_blueprint'', ?bn)]]"
    using CreateNetwork_history [of rt ?bn tr] net by simp
  have t2: "filter isCommitOrKill tr2 = filter isCommitOrKill tr1"
    using constructHomeserver_lifecycle [of rt d ?bn h1 networkID tr1] first by simp
  have t3: "filter isCommitOrKill tr3 = filter isCommitOrKill tr2"
    using deployBaseImage_lifecycle [of rt d ?bn h2 "?bn @ ''.'' @ hs_Name h2" networkID tr2] dep2
    by simp
  have tL: "filter isCommitOrKill trL = filter isCommitOrKill tr"
    by (simp add: trL t3 t2 t1)
  have f: "filter isCommitOrKill (trL @ ?fin) = filter isCommitOrKill tr @ ?fin"
    by (simp add: tL)
  show ?thesis unfolding all fst_conv snd_conv using f by simp
qed

text \<open>Claim C2: the example blueprint on a runtime whose runner fails on \<open>hs2\<close>.\<close>

theorem construct_partial_commit_witness:
  "bp_Homeservers exampleBlueprint = [plainHS ''hs1'', plainHS ''hs2'']
   \<and> fst (CreateNetwork brokenSetupWorld (bp_Name exampleBlueprint) [])
       = (''net-complement_bp1'', None)
   \<and> fst (constructHomeserver brokenSetupWorld exampleBuilder (bp_Name exampleBlueprint)
            (plainHS ''hs1'') ''net-complement_bp1''
            (snd (CreateNetwork brokenSetupWorld (bp_Name exampleBlueprint) [])))
       = Returns \<lparr>res_err = None, res_containerID = ''id-complement_bp1.hs1'',
                  res_contextStr = ''bp1.hs1'', res_homeserver = plainHS ''hs1''\<rparr>
   \<and> filter isCommitOrKill (snd (construct brokenSetupWorld exampleBuilder exampleBlueprint []))
       = [EvContainerCommit ''id-complement_bp1.hs1''
            \<lparr>co_Author = ''Complement'', co_Pause = True,
             co_Reference = ''localhost/complement:bp1.hs1'', co_Labels = []\<rparr>,
          EvContainerKill ''id-complement_bp1.hs2'' ''KILL'',
          EvContainerKill ''id-complement_bp1.hs1'' ''KILL'']
   \<and> fst (construct brokenSetupWorld exampleBuilder exampleBlueprint [])
       = Returns [Error ''instruction failed'']"
proof -
  let ?W = brokenSetupWorld
  let ?B = exampleBuilder
  let ?url = "''http://localhost:32768/_matrix/client/versions''"
  let ?nid = "''net-complement_bp1''"
  note wdefs = brokenSetupWorld_def calmWorld_def
  have name: "bp_Name exampleBlueprint = ''bp1''" by (simp add: exampleBlueprint_def)
  have hss: "bp_Homeservers exampleBlueprint = [plainHS ''hs1'', plainHS ''hs2'']"
    by (simp add: exampleBlueprint_def)
  have noas: "asIDToRegistrationFromLabels (labelsForApplicationServices (plainHS n)) = []" for n
    by (simp add: asIDToRegistrationFromLabels_def labelsForApplicationServices_def plainHS_def)
  have crname: "cr_ContainerName (deployCreateRequest rt i c b h m x n v mt) = c"
    for rt i c b h m x n v mt by (simp add: deployCreateRequest_def)
  have dep: "deployBaseImage ?W ?B ''bp1'' (plainHS n) ctx ?nid t
    = (Returns (Some \<lparr>hd_BaseURL = ''http://localhost:32768'',
                      hd_FedBaseURL = ''https://localhost:32769'',
                      hd_ContainerID = ''id-complement_'' @ ctx,
                      hd_AccessTokens = [], hd_ApplicationServices = []\<rparr>, None),
       t @ [EvContainerCreate
              (deployCreateRequest ?W ''base'' (''complement_'' @ ctx) ''bp1'' n [] ctx ?nid [] []),
            EvContainerStart (''id-complement_'' @ ctx),
            EvContainerInspect (''id-complement_'' @ ctx),
            EvHttpGet ?url])" for n ctx t
    unfolding deployBaseImage_def Let_def noas
    by (simp add: deployImage_def wdefs exampleBuilder_def crname
        examplePorts_def endpoints_def fmtInt_8008 fmtInt_8448 HostnameRunningDocker_def
        versionCheck.simps [of _ _ _ 0] tokensFromLabels_def asIDToRegistrationFromLabels_def
        plainHS_def Let_def)
  have hsname: "hs_Name (plainHS n) = n" for n by (simp add: plainHS_def)
  have run1: "runner_Run ?W t b (plainHS ''hs1'') u = None" for t b u
    by (simp add: wdefs plainHS_def)
  let ?t1 = "snd (CreateNetwork ?W (bp_Name exampleBlueprint) [])"
  let ?r1 = "\<lparr>res_err = None, res_containerID = ''id-complement_bp1.hs1'',
              res_contextStr = ''bp1.hs1'', res_homeserver = plainHS ''hs1''\<rparr>"
  let ?t2 = "?t1 @ [EvContainerCreate
              (deployCreateRequest ?W ''base'' (''complement_'' @ ''bp1.hs1'') ''bp1'' ''hs1'' []
                 ''bp1.hs1'' ?nid [] []),
            EvContainerStart (''id-complement_'' @ ''bp1.hs1''),
            EvContainerInspect (''id-complement_'' @ ''bp1.hs1''),
            EvHttpGet ?url, EvRun ''bp1'' ''hs1'' ''http://localhost:32768'']"
  let ?dep = "\<lparr>hd_BaseURL = ''http://localhost:32768'',
               hd_FedBaseURL = ''https://localhost:32769'',
               hd_ContainerID = ''id-complement_'' @ ''bp1.hs2'',
               hd_AccessTokens = [], hd_ApplicationServices = []\<rparr>"
  let ?t3 = "?t2 @ [EvContainerCreate
              (deployCreateRequest ?W ''base'' (''complement_'' @ ''bp1.hs2'') ''bp1'' ''hs2'' []
                 ''bp1.hs2'' ?nid [] []),
            EvContainerStart (''id-complement_'' @ ''bp1.hs2''),
            EvContainerInspect (''id-complement_'' @ ''bp1.hs2''),
            EvHttpGet ?url]"
  have netf: "fst (CreateNetwork ?W (bp_Name exampleBlueprint) []) = (?nid, None)"
    by (simp add: CreateNetwork_def wdefs name Let_def)
  have net: "CreateNetwork ?W (bp_Name exampleBlueprint) [] = ((?nid, None), ?t1)"
    using netf by (simp add: prod_eq_iff)
  have first: "constructHomeserver ?W ?B (bp_Name exampleBlueprint) (plainHS ''hs1'') ?nid ?t1
               = (Returns ?r1, ?t2)"
    unfolding name constructHomeserver_def Let_def hsname
    by (simp add: dep run1)
  have firstf: "fst (constructHomeserver ?W ?B (bp_Name exampleBlueprint) (plainHS ''hs1'') ?nid ?t1)
               = Returns ?r1"
    unfolding first by simp
  have ok1: "res_err ?r1 = None" by simp
  have dep2: "deployBaseImage ?W ?B (bp_Name exampleBlueprint) (plainHS ''hs2'')
                (bp_Name exampleBlueprint @ ''.'' @ hs_Name (plainHS ''hs2'')) ?nid ?t2
              = (Returns (Some ?dep, None), ?t3)"
    by (simp add: name hsname dep)
  have run2: "runner_Run ?W ?t3 (bp_Name exampleBlueprint) (plainHS ''hs2'') (hd_BaseURL ?dep)
              = Some (Error ''instruction failed'')"
    by (simp add: wdefs plainHS_def)
  note T = construct_partial_commit [OF hss net first ok1 dep2 run2 refl refl]
  have labels: "commitLabels (runner_AccessTokens ?W t b n) (plainHS ''hs1'') = []" for t b n
    by (simp add: commitLabels_def labelsForTokens_def labelsForApplicationServices_def
        plainHS_def wdefs)
  have commitok: "Docker_ContainerCommit ?W t c opts = Inr (''sha256:'' @ c)" for t c opts
    by (simp add: wdefs)
  have kills: "filter isCommitOrKill (snd (construct ?W ?B exampleBlueprint []))
       = [EvContainerCommit ''id-complement_bp1.hs1''
            \<lparr>co_Author = ''Complement'', co_Pause = True,
             co_Reference = ''localhost/complement:bp1.hs1'', co_Labels = []\<rparr>,
          EvContainerKill ''id-complement_bp1.hs2'' ''KILL'',
          EvContainerKill ''id-complement_bp1.hs1'' ''KILL'']"
    using T [THEN conjunct2, THEN conjunct1] by (simp add: labels name hsname)
  have errs: "fst (construct ?W ?B exampleBlueprint []) = Returns [Error ''instruction failed'']"
    using T [THEN conjunct2, THEN conjunct2] by (simp add: commitok name hsname)
  from hss netf firstf kills errs show ?thesis by (intro conjI)
qed

end
